theory Spec2Isabelle
  imports Complex_Main "HOL-Library.Multiset"
begin

section \<open>JavaScript numbers\<close>

text \<open>
  The dashboard's core computes with JavaScript numbers. A number is modelled as an exact
  real or one of the three special values of IEEE arithmetic; negative zero is
  identified with zero and the rounding error of a finite result is not modelled (the
  quantities below are small integers, their quotients and fixed multiples of them).
  Division follows the language: a finite non-zero number divided by zero is an infinity,
  zero divided by zero is \<open>NaN\<close>, and \<open>NaN\<close> is contagious.
\<close>

datatype jsnum = Num real | NaN | PosInf | NegInf

definition inf_of_sign :: "real \<Rightarrow> jsnum" where
  "inf_of_sign a = (if a = 0 then NaN else if 0 < a then PosInf else NegInf)"

fun js_divide :: "jsnum \<Rightarrow> jsnum \<Rightarrow> jsnum" where
  "js_divide (Num a) (Num b) = (if b = 0 then inf_of_sign a else Num (a / b))"
| "js_divide (Num a) PosInf = Num 0"
| "js_divide (Num a) NegInf = Num 0"
| "js_divide PosInf (Num b) = (if 0 \<le> b then PosInf else NegInf)"
| "js_divide NegInf (Num b) = (if 0 \<le> b then NegInf else PosInf)"
| "js_divide _ _ = NaN"

fun js_times :: "jsnum \<Rightarrow> jsnum \<Rightarrow> jsnum" where
  "js_times (Num a) (Num b) = Num (a * b)"
| "js_times (Num a) PosInf = inf_of_sign a"
| "js_times (Num a) NegInf = inf_of_sign (- a)"
| "js_times PosInf (Num b) = inf_of_sign b"
| "js_times NegInf (Num b) = inf_of_sign (- b)"
| "js_times PosInf PosInf = PosInf"
| "js_times NegInf NegInf = PosInf"
| "js_times PosInf NegInf = NegInf"
| "js_times NegInf PosInf = NegInf"
| "js_times _ _ = NaN"

text \<open>\<open>Math.round\<close>: the nearest integer, a tie going up; the special values pass through.\<close>

definition round_half_up :: "real \<Rightarrow> int" where
  "round_half_up x = \<lfloor>x + 1 / 2\<rfloor>"

fun js_round :: "jsnum \<Rightarrow> jsnum" where
  "js_round (Num a) = Num (of_int (round_half_up a))"
| "js_round x = x"

text \<open>\<open>a || b\<close> on numbers: \<open>0\<close> and \<open>NaN\<close> are falsy.\<close>

fun falsy :: "jsnum \<Rightarrow> bool" where
  "falsy (Num a) = (a = 0)"
| "falsy NaN = True"
| "falsy _ = False"

definition js_or :: "jsnum \<Rightarrow> jsnum \<Rightarrow> jsnum" where
  "js_or a b = (if falsy a then b else a)"

text \<open>\<open>a < c\<close> for a finite \<open>c\<close>: every comparison with \<open>NaN\<close> is false.\<close>

fun js_less :: "jsnum \<Rightarrow> real \<Rightarrow> bool" where
  "js_less (Num a) c = (a < c)"
| "js_less NegInf c = True"
| "js_less _ c = False"

definition num_of_int :: "int \<Rightarrow> jsnum" where
  "num_of_int i = Num (of_int i)"

definition num_of_nat :: "nat \<Rightarrow> jsnum" where
  "num_of_nat n = Num (of_nat n)"

text \<open>Decimal rendering of a natural number, as template strings produce it.\<close>

fun string_of_nat :: "nat \<Rightarrow> string" where
  "string_of_nat n =
     (if n < 10 then [''0123456789'' ! n]
      else string_of_nat (n div 10) @ [''0123456789'' ! (n mod 10)])"

declare string_of_nat.simps [simp del]

section \<open>The data model\<close>

text \<open>
  Entities are plain objects. An id \<open>session-n\<close>, \<open>speaker-n\<close> or \<open>attendee-n\<close>
  is modelled by its number \<open>n\<close>, a timestamp by its milliseconds. Presentational
  fields that no operation of the core reads (a session's formatted time and description,
  a speaker's biography, avatar and social handles, an attendee's e-mail address) are left
  out. The field \<open>averageRating\<close> is the property the session analytics read; the
  generator never sets it, so it is \<open>None\<close> (\<open>undefined\<close>) on generated sessions, whose
  rating is stored under \<open>rating\<close>.
\<close>

datatype status = Upcoming | Active | Completed

record ratings_rec =
  content :: int
  presentation :: int
  relevance :: int
  overall :: int

record feedback_rec =
  feedback_id :: "int \<times> real"
  sessionId :: nat
  attendeeId :: nat
  attendeeName :: string
  ratings :: ratings_rec
  comment :: string
  timestamp :: int
  helpful :: int
  verified :: bool

record session =
  sid :: nat
  title :: string
  speaker :: string
  speakerId :: nat
  room :: string
  startHour :: int
  startMinute :: int
  duration :: int
  capacity :: int
  currentAttendance :: int
  attendanceRate :: jsnum
  engagement :: int
  status :: status
  tags :: "string list"
  rating :: real
  averageRating :: "real option"
  session_feedback :: "feedback_rec list"

record speaker_rec =
  sp_id :: nat
  sp_name :: string
  sp_title :: string
  sp_company :: string
  sp_sessions :: int
  sp_totalAttendees :: int
  sp_avgEngagement :: int
  sp_rating :: real
  sp_expertise :: "string list"

record attendee =
  aid :: nat
  name :: string
  company :: string
  role :: string
  registeredSessions :: "nat list"
  attendedSessions :: "nat list"
  engagementScore :: int
  joinedAt :: int

record metrics_rec =
  totalSessions :: nat
  activeSessions :: nat
  totalAttendees :: nat
  avgEngagement :: jsnum
  totalFeedback :: nat
  avgRating :: jsnum

record dataset =
  sessions :: "session list"
  speakers :: "speaker_rec list"
  attendees :: "attendee list"
  feedback :: "feedback_rec list"
  metrics :: metrics_rec
  lastUpdated :: int

section \<open>Randomness\<close>

text \<open>
  \<open>Math.random()\<close> is unseeded global state. A computation takes the stream of the
  values its calls will return, reads them in call order and hands on the rest.
  Every value that \<open>Math.random()\<close> returns lies in \<open>[0, 1)\<close>.
\<close>

type_synonym rng = "nat \<Rightarrow> real"

definition adv :: "nat \<Rightarrow> rng \<Rightarrow> rng" where
  "adv k g = (\<lambda>n. g (n + k))"

definition valid_rng :: "rng \<Rightarrow> bool" where
  "valid_rng g = (\<forall>n. 0 \<le> g n \<and> g n < 1)"

definition zero_rng :: rng where
  "zero_rng = (\<lambda>n. 0)"

definition half_rng :: rng where
  "half_rng = (\<lambda>n. 1 / 2)"

text \<open>\<open>Math.floor(Math.random() * n)\<close> for a count \<open>n\<close>.\<close>

definition random_below :: "real \<Rightarrow> int \<Rightarrow> int" where
  "random_below r n = \<lfloor>r * of_int n\<rfloor>"

definition pick :: "real \<Rightarrow> 'a list \<Rightarrow> 'a" where
  "pick r xs = xs ! nat (random_below r (int (length xs)))"

section \<open>Entity generator\<close>

definition SESSION_TOPICS :: "string list" where
  "SESSION_TOPICS =
    [''Keynote: Future of Web Development'', ''React Performance Optimization'',
     ''Building Scalable Microservices'', ''Cloud Native Architecture'',
     ''Machine Learning in JavaScript'', ''DevOps Best Practices'',
     ''Accessibility in Modern Web Apps'', ''State Management Patterns'',
     ''GraphQL vs REST APIs'', ''Security in Web Applications'', ''Progressive Web Apps'',
     ''Testing Strategies'', ''CI/CD Pipeline Design'', ''Kubernetes for Developers'',
     ''Serverless Architecture'']"

definition SPEAKER_NAMES :: "string list" where
  "SPEAKER_NAMES =
    [''Dr. Sarah Chen'', ''Michael Rodriguez'', ''Emily Johnson'', ''James Wilson'',
     ''Maria Garcia'', ''David Kim'', ''Lisa Anderson'', ''Robert Taylor'',
     ''Jennifer Martinez'', ''Christopher Lee'', ''Amanda White'', ''Daniel Brown'',
     ''Jessica Davis'', ''Matthew Miller'', ''Sophia Thompson'']"

definition ROOM_NAMES :: "string list" where
  "ROOM_NAMES =
    [''Main Auditorium'', ''Conference Room A'', ''Conference Room B'', ''Innovation Lab'',
     ''Workshop Space'', ''Tech Hub'', ''Collaboration Zone'', ''Virtual Studio'']"

definition COMPANIES :: "string list" where
  "COMPANIES =
    [''TechCorp'', ''InnovateLabs'', ''CloudSystems'', ''DataDynamics'', ''WebWorks'',
     ''AppForge'', ''CodeCraft'', ''DigitalHub'', ''FutureTech'', ''SmartSoft'']"

definition generateTimeSlot :: "nat \<Rightarrow> int \<times> int" where
  "generateTimeSlot index =
     (9 + \<lfloor>(of_nat index :: real) * (3 / 2)\<rfloor>, int (index mod 2) * 30)"

text \<open>
  \<open>generateSession\<close> draws seven random values, in this order: capacity, attendance
  fraction, speaker, room, engagement, number of tags, rating.
\<close>

definition js_rate :: "int \<Rightarrow> int \<Rightarrow> jsnum" where
  "js_rate attendance cap =
     js_round (js_times (js_divide (num_of_int attendance) (num_of_int cap)) (Num 100))"

definition generateSession :: "nat \<Rightarrow> nat \<Rightarrow> rng \<Rightarrow> session" where
  "generateSession ident index g =
     (let timeSlot = generateTimeSlot index;
          cap = 50 + random_below (g 0) 150;
          attendance = \<lfloor>of_int cap * (1 / 2 + g 1 * (1 / 2))\<rfloor>;
          speakerIndex = nat (random_below (g 2) (int (length SPEAKER_NAMES)))
      in \<lparr> sid = ident,
           title = SESSION_TOPICS ! (index mod length SESSION_TOPICS),
           speaker = SPEAKER_NAMES ! speakerIndex,
           speakerId = speakerIndex,
           room = pick (g 3) ROOM_NAMES,
           startHour = fst timeSlot,
           startMinute = snd timeSlot,
           duration = 60,
           capacity = cap,
           currentAttendance = attendance,
           attendanceRate = js_rate attendance cap,
           engagement = 60 + random_below (g 4) 35,
           status = (if index < 4 then Completed else if index < 8 then Active else Upcoming),
           tags = take (nat (1 + random_below (g 5) 2))
                    [''Technology'', ''Innovation'', ''Workshop''],
           rating = 7 / 2 + g 6 * (3 / 2),
           averageRating = None,
           session_feedback = [] \<rparr>)"

definition generateSpeaker :: "nat \<Rightarrow> string \<Rightarrow> rng \<Rightarrow> speaker_rec" where
  "generateSpeaker ident nm g =
     \<lparr> sp_id = ident,
       sp_name = nm,
       sp_title = pick (g 4) [''Senior Developer'', ''Tech Lead'', ''Chief Architect'',
                              ''VP Engineering'', ''CTO''],
       sp_company = pick (g 5) COMPANIES,
       sp_sessions = 2 + random_below (g 0) 3,
       sp_totalAttendees = 100 + random_below (g 1) 400,
       sp_avgEngagement = 65 + random_below (g 2) 30,
       sp_rating = 7 / 2 + g 3 * (3 / 2),
       sp_expertise = take (nat (2 + random_below (g 6) 2))
                        [''React'', ''Node.js'', ''Cloud'', ''DevOps'', ''Architecture''] \<rparr>"

definition generateAttendee :: "nat \<Rightarrow> int \<Rightarrow> rng \<Rightarrow> attendee" where
  "generateAttendee ident now g =
     (let firstName = pick (g 0) [''John'', ''Jane'', ''Mike'', ''Sarah'', ''David'', ''Emily'',
                                  ''Chris'', ''Lisa''];
          lastName = pick (g 1) [''Smith'', ''Johnson'', ''Williams'', ''Brown'', ''Jones'',
                                 ''Garcia'', ''Miller'', ''Davis'']
      in \<lparr> aid = ident,
           name = firstName @ '' '' @ lastName,
           company = pick (g 2) COMPANIES,
           role = pick (g 3) [''Developer'', ''Manager'', ''Architect'', ''Designer'', ''Analyst''],
           registeredSessions = [],
           attendedSessions = [],
           engagementScore = 50 + random_below (g 4) 50,
           joinedAt = \<lfloor>of_int now - g 5 * 7200000\<rfloor> \<rparr>)"

definition generateFeedback :: "nat \<Rightarrow> nat \<Rightarrow> string \<Rightarrow> int \<Rightarrow> rng \<Rightarrow> feedback_rec" where
  "generateFeedback sessId attId attName now g =
     \<lparr> feedback_id = (now, g 4),
       sessionId = sessId,
       attendeeId = attId,
       attendeeName = attName,
       ratings = \<lparr> content = 3 + random_below (g 0) 3,
                   presentation = 3 + random_below (g 1) 3,
                   relevance = 3 + random_below (g 2) 3,
                   overall = 3 + random_below (g 3) 3 \<rparr>,
       comment = pick (g 5) [''Great presentation! Very informative.'',
                             ''Excellent content and delivery.'',
                             ''Good session, could use more examples.'',
                             ''Very engaging speaker.'',
                             ''Helpful and practical information.'',
                             ''Well organized and clear.'',
                             ''Inspiring talk!'',
                             ''Learned a lot of new concepts.''],
       timestamp = now,
       helpful = random_below (g 6) 20,
       verified = (1 / 5 < g 7) \<rparr>"

text \<open>
  One pass of the registration loop of \<open>generateInitialData\<close>: a random session is
  drawn; a session already selected is skipped (nothing is drawn in its place); a new one
  is registered and, when it is completed, marked attended with a further draw above
  \<open>0.2\<close>, and then gives a feedback record with a further draw above \<open>0.6\<close>. The state
  is the list \<open>selectedSessions\<close>, the attendee, the global feedback list and the
  remaining random stream.
\<close>

type_synonym reg_state = "nat list \<times> attendee \<times> feedback_rec list \<times> rng"

definition registerStep :: "session list \<Rightarrow> int \<Rightarrow> reg_state \<Rightarrow> reg_state" where
  "registerStep ss now st =
     (case st of (selectedSessions, a, fb, g) \<Rightarrow>
        let s = pick (g 0) ss; g1 = adv 1 g in
        if sid s \<in> set selectedSessions then (selectedSessions, a, fb, g1)
        else
          let sel = selectedSessions @ [sid s];
              a1 = a\<lparr>registeredSessions := registeredSessions a @ [sid s]\<rparr>
          in if status s = Completed then
               (if 1 / 5 < g1 0 then
                  let a2 = a1\<lparr>attendedSessions := attendedSessions a1 @ [sid s]\<rparr>;
                      g2 = adv 1 g1
                  in if 3 / 5 < g2 0 then
                       (sel, a2, fb @ [generateFeedback (sid s) (aid a2) (name a2) now (adv 1 g2)],
                        adv 9 g2)
                     else (sel, a2, fb, adv 1 g2)
                else (sel, a1, fb, adv 1 g1))
             else (sel, a1, fb, g1))"

fun registerLoop :: "nat \<Rightarrow> session list \<Rightarrow> int \<Rightarrow> reg_state \<Rightarrow> reg_state" where
  "registerLoop 0 ss now st = st"
| "registerLoop (Suc k) ss now st = registerLoop k ss now (registerStep ss now st)"

text \<open>
  One attendee: six draws for the attendee's own fields, one for the number of
  registration attempts (2 to 5), then the registration loop.
\<close>

type_synonym gen_state = "attendee list \<times> feedback_rec list \<times> rng"

definition attendeeStep :: "nat \<Rightarrow> session list \<Rightarrow> int \<Rightarrow> gen_state \<Rightarrow> gen_state" where
  "attendeeStep i ss now st =
     (case st of (as, fb, g) \<Rightarrow>
        let a = generateAttendee (i + 1) now g;
            g1 = adv 6 g;
            sessionCount = 2 + random_below (g1 0) 4
        in case registerLoop (nat sessionCount) ss now ([], a, fb, adv 1 g1) of
             (sel, a', fb', g2) \<Rightarrow> (as @ [a'], fb', g2))"

fun attendeesLoop :: "nat \<Rightarrow> nat \<Rightarrow> session list \<Rightarrow> int \<Rightarrow> gen_state \<Rightarrow> gen_state" where
  "attendeesLoop 0 i ss now st = st"
| "attendeesLoop (Suc k) i ss now st = attendeesLoop k (i + 1) ss now (attendeeStep i ss now st)"

fun sessionsLoop :: "nat \<Rightarrow> nat \<Rightarrow> session list \<times> rng \<Rightarrow> session list \<times> rng" where
  "sessionsLoop 0 i st = st"
| "sessionsLoop (Suc k) i st =
     sessionsLoop k (i + 1) (fst st @ [generateSession (i + 1) i (snd st)], adv 7 (snd st))"

fun speakersLoop :: "string list \<Rightarrow> nat \<Rightarrow> speaker_rec list \<times> rng \<Rightarrow> speaker_rec list \<times> rng" where
  "speakersLoop [] index st = st"
| "speakersLoop (nm # rest) index st =
     speakersLoop rest (index + 1) (fst st @ [generateSpeaker index nm (snd st)], adv 7 (snd st))"

definition sum_overall :: "feedback_rec list \<Rightarrow> int" where
  "sum_overall fb = foldl (\<lambda>sum f. sum + overall (ratings f)) 0 fb"

definition sum_engagement :: "session list \<Rightarrow> int" where
  "sum_engagement ss = foldl (\<lambda>sum s. sum + engagement s) 0 ss"

definition sum_capacity :: "session list \<Rightarrow> int" where
  "sum_capacity ss = foldl (\<lambda>sum s. sum + capacity s) 0 ss"

definition sum_attendance :: "session list \<Rightarrow> int" where
  "sum_attendance ss = foldl (\<lambda>sum s. sum + currentAttendance s) 0 ss"

definition with_status :: "status \<Rightarrow> session list \<Rightarrow> session list" where
  "with_status st ss = filter (\<lambda>s. status s = st) ss"

text \<open>
  \<open>Math.round(x * 10) / 10\<close> for the quotient \<open>x\<close> of two integers, as the average
  rating is computed.
\<close>

definition js_avg_rating :: "feedback_rec list \<Rightarrow> jsnum" where
  "js_avg_rating fb =
     js_divide
       (js_round (js_times (js_divide (num_of_int (sum_overall fb)) (num_of_nat (length fb)))
                   (Num 10)))
       (Num 10)"

definition attach_feedback :: "feedback_rec list \<Rightarrow> session \<Rightarrow> session" where
  "attach_feedback fb s =
     s\<lparr>session_feedback := take 5 (filter (\<lambda>f. sessionId f = sid s) fb)\<rparr>"

text \<open>
  \<open>generateInitialData\<close>: fifteen sessions, one speaker per name, 847 attendees with
  their registrations and feedback, each session's feedback view, and the metrics.
  \<open>now\<close> is the clock at the call.
\<close>

definition generateInitialData :: "int \<Rightarrow> rng \<Rightarrow> dataset" where
  "generateInitialData now g =
     (case sessionsLoop 15 0 ([], g) of (ss, g1) \<Rightarrow>
      case speakersLoop SPEAKER_NAMES 0 ([], g1) of (sp, g2) \<Rightarrow>
      case attendeesLoop 847 0 ss now ([], [], g2) of (as, fb, g3) \<Rightarrow>
        let ss' = map (attach_feedback fb) ss
        in \<lparr> sessions = ss',
             speakers = sp,
             attendees = as,
             feedback = fb,
             metrics = \<lparr> totalSessions = length ss',
                         activeSessions = length (with_status Active ss'),
                         totalAttendees = length as,
                         avgEngagement =
                           js_round (js_divide (num_of_int (sum_engagement ss'))
                                       (num_of_nat (length ss'))),
                         totalFeedback = length fb,
                         avgRating = js_avg_rating fb \<rparr>,
             lastUpdated = now \<rparr>)"

section \<open>Aggregate analytics: metrics and the ROI score\<close>

record aggregate = metrics_rec +
  completedSessions :: nat
  upcomingSessions :: nat
  totalCapacity :: int
  totalAttendance :: int
  overallAttendanceRate :: jsnum
  satisfactionRate :: jsnum

text \<open>
  \<open>aggregateMetrics\<close> of the data transformers. The averages over the active sessions
  and over the feedback are guarded by a test of the length, the satisfaction rate by
  \<open>|| 0\<close>; the overall attendance rate is the bare quotient.
\<close>

definition aggregateMetrics :: "session list \<Rightarrow> attendee list \<Rightarrow> feedback_rec list \<Rightarrow> aggregate" where
  "aggregateMetrics ss as fb =
     (let activeS = with_status Active ss;
          completedS = with_status Completed ss;
          totalCap = sum_capacity ss;
          totalAtt = sum_attendance ss;
          avgEng = (if 0 < length activeS
                    then js_round (js_divide (num_of_int (sum_engagement activeS))
                                     (num_of_nat (length activeS)))
                    else Num 0);
          avgRat = (if 0 < length fb then js_avg_rating fb else Num 0)
      in \<lparr> totalSessions = length ss,
           activeSessions = length activeS,
           totalAttendees = length as,
           avgEngagement = avgEng,
           totalFeedback = length fb,
           avgRating = avgRat,
           completedSessions = length completedS,
           upcomingSessions = length (with_status Upcoming ss),
           totalCapacity = totalCap,
           totalAttendance = totalAtt,
           overallAttendanceRate =
             js_round (js_times (js_divide (num_of_int totalAtt) (num_of_int totalCap)) (Num 100)),
           satisfactionRate =
             js_or (js_round (js_times
                      (js_divide (num_of_nat (length (filter (\<lambda>f. 4 \<le> overall (ratings f)) fb)))
                         (num_of_nat (length fb)))
                      (Num 100)))
                   (Num 0) \<rparr>)"

record roi =
  roi_score :: jsnum
  roi_totalAttendance :: int
  roi_avgSatisfaction :: jsnum
  roi_engagementScore :: jsnum

text \<open>
  \<open>calculateROI\<close> of the aggregate analytics service: the satisfaction average is
  guarded by the length of the feedback, the engagement average is the bare quotient by
  \<open>sessions.length\<close>.
\<close>

definition calculateROI :: "session list \<Rightarrow> feedback_rec list \<Rightarrow> roi" where
  "calculateROI ss fb =
     (let totalAtt = sum_attendance ss;
          avgSatisfaction = (if 0 < length fb
                             then js_divide (num_of_int (sum_overall fb)) (num_of_nat (length fb))
                             else Num 0);
          engagementScore = js_divide (num_of_int (sum_engagement ss)) (num_of_nat (length ss));
          r = js_divide (js_times (js_times (num_of_int totalAtt) avgSatisfaction) engagementScore)
                (Num 100)
      in \<lparr> roi_score = js_round r,
           roi_totalAttendance = totalAtt,
           roi_avgSatisfaction = js_divide (js_round (js_times avgSatisfaction (Num 10))) (Num 10),
           roi_engagementScore = js_round engagementScore \<rparr>)"

section \<open>Realtime simulator\<close>

text \<open>
  The simulator owns one live data object. An object handed to a subscriber is described
  by its identity \<open>p_ref\<close>, the six dataset properties it carries and its
  \<open>updateCount\<close> property (\<open>None\<close> when the object has no such property). The
  simulator records the identity of its live data object in \<open>dataRef\<close>; every object
  literal evaluated later takes the next unused identity \<open>nextRef\<close>.

  A subscriber is a function value, compared by identity: it is modelled by a number, and
  the parameter \<open>throws\<close> of the operations below says for which arguments a call of
  that function throws. Callbacks do not call back into the simulator. Every call of a
  callback and every console message is appended to \<open>trace\<close>.
\<close>

record payload =
  p_ref :: nat
  p_data :: dataset
  p_updateCount :: "nat option"

datatype event = Delivered nat payload | ConsoleError nat | ConsoleWarn | ConsoleLog

record simulator =
  data :: dataset
  dataRef :: nat
  nextRef :: nat
  subscribers :: "nat list"
  updateInterval :: "nat option"
  isRunning :: bool
  updateCount :: nat
  trace :: "event list"

type_synonym behaviour = "nat \<Rightarrow> payload \<Rightarrow> bool"

text \<open>A call either returns or throws; the state it leaves behind is kept in both cases.\<close>

datatype outcome = Returned simulator | Thrown simulator

fun state_of :: "outcome \<Rightarrow> simulator" where
  "state_of (Returned s) = s"
| "state_of (Thrown s) = s"

definition newSimulator :: "int \<Rightarrow> rng \<Rightarrow> simulator" where
  "newSimulator now g =
     \<lparr> data = generateInitialData now g, dataRef = 0, nextRef = 1, subscribers = [],
       updateInterval = None, isRunning = False, updateCount = 0, trace = [] \<rparr>"

text \<open>The subscriber \<open>Set\<close>: insertion-ordered, without repetition.\<close>

definition set_add :: "nat \<Rightarrow> nat list \<Rightarrow> nat list" where
  "set_add cb xs = (if cb \<in> set xs then xs else xs @ [cb])"

definition set_delete :: "nat \<Rightarrow> nat list \<Rightarrow> nat list" where
  "set_delete cb xs = filter (\<lambda>x. x \<noteq> cb) xs"

definition invoke :: "behaviour \<Rightarrow> nat \<Rightarrow> payload \<Rightarrow> simulator \<Rightarrow> outcome" where
  "invoke throws cb p s =
     (let s' = s\<lparr>trace := trace s @ [Delivered cb p]\<rparr>
      in if throws cb p then Thrown s' else Returned s')"

text \<open>
  \<open>subscribe\<close> adds the callback and calls it with \<open>this.data\<close>, outside any
  \<open>try\<close>. The function it returns is \<open>unsubscribe cb\<close>.
\<close>

definition subscribe :: "behaviour \<Rightarrow> nat \<Rightarrow> simulator \<Rightarrow> outcome" where
  "subscribe throws cb s =
     (let s1 = s\<lparr>subscribers := set_add cb (subscribers s)\<rparr>
      in invoke throws cb \<lparr> p_ref = dataRef s1, p_data = data s1, p_updateCount = None \<rparr> s1)"

definition unsubscribe :: "nat \<Rightarrow> simulator \<Rightarrow> simulator" where
  "unsubscribe cb s = s\<lparr>subscribers := set_delete cb (subscribers s)\<rparr>"

text \<open>
  \<open>notifySubscribers\<close> builds one new object from the live data, the clock and the
  update counter, and calls every subscriber with it inside \<open>try ... catch\<close>.
\<close>

definition try_notify :: "behaviour \<Rightarrow> payload \<Rightarrow> nat \<Rightarrow> simulator \<Rightarrow> outcome" where
  "try_notify throws snap cb s =
     (case invoke throws cb snap s of
        Returned s' \<Rightarrow> Returned s'
      | Thrown s' \<Rightarrow> Returned (s'\<lparr>trace := trace s' @ [ConsoleError cb]\<rparr>))"

fun forEach :: "(nat \<Rightarrow> simulator \<Rightarrow> outcome) \<Rightarrow> nat list \<Rightarrow> simulator \<Rightarrow> outcome" where
  "forEach f [] s = Returned s"
| "forEach f (cb # rest) s =
     (case f cb s of Returned s' \<Rightarrow> forEach f rest s' | Thrown s' \<Rightarrow> Thrown s')"

definition snapshot :: "int \<Rightarrow> simulator \<Rightarrow> payload" where
  "snapshot now s =
     \<lparr> p_ref = nextRef s, p_data = (data s)\<lparr>lastUpdated := now\<rparr>,
       p_updateCount = Some (updateCount s) \<rparr>"

definition notifySubscribers :: "int \<Rightarrow> behaviour \<Rightarrow> simulator \<Rightarrow> outcome" where
  "notifySubscribers now throws s =
     forEach (try_notify throws (snapshot now s)) (subscribers s) (s\<lparr>nextRef := nextRef s + 1\<rparr>)"

subsection \<open>The five mutation passes\<close>

definition recompute_rate :: "session \<Rightarrow> session" where
  "recompute_rate s = s\<lparr>attendanceRate := js_rate (currentAttendance s) (capacity s)\<rparr>"

definition attendanceStep :: "session \<Rightarrow> rng \<Rightarrow> session \<times> rng" where
  "attendanceStep s g =
     (let changeType = g 0 in
      if changeType < 3 / 5 then
        let maxIncrease = min 5 (capacity s - currentAttendance s);
            change = random_below (g 1) maxIncrease
        in (recompute_rate
              (s\<lparr>currentAttendance := min (capacity s) (currentAttendance s + change)\<rparr>),
            adv 2 g)
      else if changeType < 4 / 5 then
        let maxDecrease = min 3 (currentAttendance s);
            change = random_below (g 1) maxDecrease
        in (recompute_rate (s\<lparr>currentAttendance := max 0 (currentAttendance s - change)\<rparr>),
            adv 2 g)
      else (recompute_rate s, adv 1 g))"

text \<open>
  A pass over the sessions array that changes the active sessions in place, in array
  order, each step reading the random stream where the previous one stopped.
\<close>

fun activePass :: "(session \<Rightarrow> rng \<Rightarrow> session \<times> rng) \<Rightarrow> session list \<Rightarrow> rng \<Rightarrow> session list \<times> rng" where
  "activePass f [] g = ([], g)"
| "activePass f (s # ss) g =
     (if status s = Active
      then (case f s g of (s', g') \<Rightarrow>
              case activePass f ss g' of (ss', g'') \<Rightarrow> (s' # ss', g''))
      else (case activePass f ss g of (ss', g') \<Rightarrow> (s # ss', g')))"

definition simulateAttendanceChange :: "dataset \<Rightarrow> rng \<Rightarrow> dataset \<times> rng" where
  "simulateAttendanceChange d g =
     (case activePass attendanceStep (sessions d) g of (ss, g') \<Rightarrow> (d\<lparr>sessions := ss\<rparr>, g'))"

definition engagementStep :: "session \<Rightarrow> rng \<Rightarrow> session \<times> rng" where
  "engagementStep s g =
     (let fluctuation = (g 0 - 1 / 2) * 10
      in (s\<lparr>engagement :=
              round_half_up (max 0 (min 100 (of_int (engagement s) + fluctuation)))\<rparr>,
          adv 1 g))"

text \<open>
  The average is written \<open>sum / count || 1\<close>, which the language reads as
  \<open>(sum / count) || 1\<close>.
\<close>

definition simulateEngagementFluctuation :: "dataset \<Rightarrow> rng \<Rightarrow> dataset \<times> rng" where
  "simulateEngagementFluctuation d g =
     (case activePass engagementStep (sessions d) g of (ss, g') \<Rightarrow>
        (d\<lparr>sessions := ss,
           metrics := (metrics d)\<lparr>avgEngagement :=
             js_round (js_or (js_divide (num_of_int (sum_engagement (with_status Active ss)))
                                (num_of_nat (length (with_status Active ss))))
                         (Num 1))\<rparr>\<rparr>,
         g'))"

text \<open>Change the \<open>k\<close>-th element (from 0) among those that satisfy \<open>P\<close>.\<close>

fun update_kth :: "('a \<Rightarrow> bool) \<Rightarrow> nat \<Rightarrow> ('a \<Rightarrow> 'a) \<Rightarrow> 'a list \<Rightarrow> 'a list" where
  "update_kth P k f [] = []"
| "update_kth P k f (x # xs) =
     (if P x then (case k of 0 \<Rightarrow> f x # xs | Suc j \<Rightarrow> x # update_kth P j f xs)
      else x # update_kth P k f xs)"

definition simulateNewFeedback :: "int \<Rightarrow> dataset \<Rightarrow> rng \<Rightarrow> dataset \<times> rng" where
  "simulateNewFeedback now d g =
     (if g 0 < 3 / 10 then
        let completedS = with_status Completed (sessions d) in
        if 0 < length completedS then
          let k = nat (random_below (g 1) (int (length completedS)));
              s = completedS ! k;
              attendeeIndex = nat (random_below (g 2) 100);
              fbk = \<lparr> feedback_id = (now, g 3),
                      sessionId = sid s,
                      attendeeId = attendeeIndex,
                      attendeeName = ''User '' @ string_of_nat attendeeIndex,
                      ratings = \<lparr> content = 3 + random_below (g 4) 3,
                                  presentation = 3 + random_below (g 5) 3,
                                  relevance = 3 + random_below (g 6) 3,
                                  overall = 3 + random_below (g 7) 3 \<rparr>,
                      comment = pick (g 8) [''Excellent presentation!'',
                                            ''Very informative session.'',
                                            ''Great insights shared.'',
                                            ''Well structured content.'',
                                            ''Engaging speaker!''],
                      timestamp = now,
                      helpful = random_below (g 9) 10,
                      verified = True \<rparr>;
              fb' = feedback d @ [fbk];
              ss' = update_kth (\<lambda>x. status x = Completed) k
                      (\<lambda>x. x\<lparr>session_feedback := take 5 (fbk # session_feedback x)\<rparr>)
                      (sessions d)
          in (d\<lparr>sessions := ss', feedback := fb',
                metrics := (metrics d)\<lparr>totalFeedback := length fb',
                                        avgRating := js_avg_rating fb'\<rparr>\<rparr>,
              adv 10 g)
        else (d, adv 1 g)
      else (d, adv 1 g))"

definition statusStep :: "int \<Rightarrow> int \<Rightarrow> session \<Rightarrow> session" where
  "statusStep currentHour currentMinute s =
     (let sessionTime = (of_int currentHour :: real) + of_int currentMinute / 60 in
      if status s = Upcoming then
        (if of_int (startHour s) + of_int (startMinute s) / 60 \<le> sessionTime
         then recompute_rate
                (s\<lparr>status := Active,
                   currentAttendance := \<lfloor>(of_int (capacity s) :: real) * (3 / 10)\<rfloor>\<rparr>)
         else s)
      else if status s = Active then
        (if of_int (startHour s) + 1 + of_int (startMinute s) / 60 \<le> sessionTime
         then s\<lparr>status := Completed\<rparr>
         else s)
      else s)"

definition simulateSessionStatusChange :: "int \<Rightarrow> int \<Rightarrow> dataset \<Rightarrow> dataset" where
  "simulateSessionStatusChange currentHour currentMinute d =
     (let ss = map (statusStep currentHour currentMinute) (sessions d)
      in d\<lparr>sessions := ss,
           metrics := (metrics d)\<lparr>activeSessions := length (with_status Active ss)\<rparr>\<rparr>)"

definition simulateNewAttendee :: "int \<Rightarrow> dataset \<Rightarrow> rng \<Rightarrow> dataset \<times> rng" where
  "simulateNewAttendee now d g =
     (if g 0 < 1 / 10 then
        let n = length (attendees d) + 1;
            newAttendee = \<lparr> aid = n,
                             name = ''New User '' @ string_of_nat n,
                             company = ''TechCorp'',
                             role = ''Developer'',
                             registeredSessions = [],
                             attendedSessions = [],
                             engagementScore = 50 + random_below (g 1) 50,
                             joinedAt = now \<rparr>;
            upcomingS = with_status Upcoming (sessions d);
            a = (if 0 < length upcomingS
                 then newAttendee\<lparr>registeredSessions := [sid (pick (g 2) upcomingS)]\<rparr>
                 else newAttendee);
            g' = (if 0 < length upcomingS then adv 3 g else adv 2 g);
            as = attendees d @ [a]
        in (d\<lparr>attendees := as, metrics := (metrics d)\<lparr>totalAttendees := length as\<rparr>\<rparr>, g')
      else (d, adv 1 g))"

subsection \<open>Ticks and control\<close>

text \<open>
  What one tick reads from outside: the clock (milliseconds, and the local hour and
  minute) and the random stream from the tick's first draw on.
\<close>

record tick =
  t_now :: int
  t_hour :: int
  t_minute :: int
  t_rng :: rng

definition mutate :: "tick \<Rightarrow> dataset \<Rightarrow> dataset" where
  "mutate t d =
     (case simulateAttendanceChange d (t_rng t) of (d1, g1) \<Rightarrow>
      case simulateEngagementFluctuation d1 g1 of (d2, g2) \<Rightarrow>
      case simulateNewFeedback (t_now t) d2 g2 of (d3, g3) \<Rightarrow>
      fst (simulateNewAttendee (t_now t)
             (simulateSessionStatusChange (t_hour t) (t_minute t) d3) g3))"

definition performUpdate :: "behaviour \<Rightarrow> tick \<Rightarrow> simulator \<Rightarrow> outcome" where
  "performUpdate throws t s =
     notifySubscribers (t_now t) throws
       (s\<lparr>updateCount := updateCount s + 1, data := mutate t (data s)\<rparr>)"

definition start :: "nat \<Rightarrow> simulator \<Rightarrow> simulator" where
  "start intervalMs s =
     (if isRunning s then s\<lparr>trace := trace s @ [ConsoleWarn]\<rparr>
      else s\<lparr>isRunning := True, updateInterval := Some intervalMs,
             trace := trace s @ [ConsoleLog]\<rparr>)"

definition stop :: "simulator \<Rightarrow> simulator" where
  "stop s =
     (if \<not> isRunning s then s\<lparr>trace := trace s @ [ConsoleWarn]\<rparr>
      else s\<lparr>updateInterval := None, isRunning := False, trace := trace s @ [ConsoleLog]\<rparr>)"

definition reset :: "int \<Rightarrow> rng \<Rightarrow> behaviour \<Rightarrow> simulator \<Rightarrow> outcome" where
  "reset now g throws s =
     (let s1 = stop s
      in notifySubscribers now throws
           (s1\<lparr>data := generateInitialData now g, dataRef := nextRef s1,
               nextRef := nextRef s1 + 1, updateCount := 0\<rparr>))"

definition getData :: "simulator \<Rightarrow> payload \<times> simulator" where
  "getData s =
     (\<lparr> p_ref = nextRef s, p_data = data s, p_updateCount = None \<rparr>,
      s\<lparr>nextRef := nextRef s + 1\<rparr>)"

text \<open>The operations of the simulator, and a run of a list of them from a state.\<close>

datatype operation =
    Subscribe nat
  | Unsubscribe nat
  | Start nat
  | Stop
  | Tick tick
  | Reset int rng
  | GetData

fun exec :: "behaviour \<Rightarrow> simulator \<Rightarrow> operation \<Rightarrow> simulator" where
  "exec throws s (Subscribe cb) = state_of (subscribe throws cb s)"
| "exec throws s (Unsubscribe cb) = unsubscribe cb s"
| "exec throws s (Start ms) = start ms s"
| "exec throws s Stop = stop s"
| "exec throws s (Tick t) = state_of (performUpdate throws t s)"
| "exec throws s (Reset now g) = state_of (reset now g throws s)"
| "exec throws s GetData = snd (getData s)"

definition run :: "behaviour \<Rightarrow> operation list \<Rightarrow> simulator \<Rightarrow> simulator" where
  "run throws ops s = foldl (exec throws) s ops"

fun is_reset :: "operation \<Rightarrow> bool" where
  "is_reset (Reset now g) = True"
| "is_reset _ = False"

section \<open>Session analytics service\<close>

text \<open>
  Both analytics services keep a \<open>Map\<close> from a key string to a computed value and the
  time it was stored. \<open>now\<close> is the value of \<open>Date.now()\<close> during the call.
\<close>

type_synonym 'v cache = "string \<Rightarrow> ('v \<times> int) option"

definition getCachedOrCompute ::
    "int \<Rightarrow> string \<Rightarrow> ('d \<Rightarrow> 'v) \<Rightarrow> 'd \<Rightarrow> int \<Rightarrow> 'v cache \<Rightarrow> 'v \<times> 'v cache" where
  "getCachedOrCompute cacheTimeout key computeFn d now c =
     (case c key of
        Some (v, stored) \<Rightarrow>
          if now - stored < cacheTimeout then (v, c)
          else (computeFn d, c(key \<mapsto> (computeFn d, now)))
      | None \<Rightarrow> (computeFn d, c(key \<mapsto> (computeFn d, now))))"

definition clearCache :: "string option \<Rightarrow> 'v cache \<Rightarrow> 'v cache" where
  "clearCache key c = (case key of Some k \<Rightarrow> c(k := None) | None \<Rightarrow> Map.empty)"

text \<open>
  \<open>getTopSessions\<close> looks its sessions up with \<open>indexOf\<close>, which compares objects
  by identity. Its array is therefore modelled as a list of references into a store of
  session objects: two places of the array hold the same object exactly when they hold
  the same reference, whatever the values of the objects are. \<open>indexOf\<close> below is
  applied to references only. An entry of the result is a copy of a session's properties
  with \<open>rank\<close> and \<open>percentile\<close> added.
\<close>

type_synonym ref = nat

type_synonym store = "ref \<Rightarrow> session"

record ranked =
  entry :: session
  rank :: int
  percentile :: int

fun indexOf :: "'a \<Rightarrow> 'a list \<Rightarrow> int" where
  "indexOf x [] = - 1"
| "indexOf x (y # ys) =
     (if x = y then 0 else (let i = indexOf x ys in if i < 0 then - 1 else i + 1))"

text \<open>
  The sort key \<open>(s.field || 0)\<close> of the comparator: a finite number is its own value
  under \<open>|| 0\<close>, a missing \<open>averageRating\<close> counts as 0. Any metric other than
  \<open>engagement\<close>, \<open>capacity\<close> and \<open>rating\<close> sorts by attendance.
\<close>

definition metric_key :: "string \<Rightarrow> session \<Rightarrow> real" where
  "metric_key metric s =
     (if metric = ''engagement'' then of_int (engagement s)
      else if metric = ''capacity'' then of_int (capacity s)
      else if metric = ''rating'' then (case averageRating s of None \<Rightarrow> 0 | Some r \<Rightarrow> r)
      else of_int (currentAttendance s))"

text \<open>
  \<open>Array.prototype.sort\<close> is stable. With the comparator \<open>key b - key a\<close> on finite
  keys it yields the one stable arrangement by descending key, here computed by insertion.
  The limit of \<open>getTopSessions\<close> is a count, a natural number. The percentile is
  computed in exact arithmetic, where the code rounds a double: the two can differ by one
  at a tie, and the properties below use only that it lies between 0 and 100.
\<close>

definition sort_desc :: "('a \<Rightarrow> real) \<Rightarrow> 'a list \<Rightarrow> 'a list" where
  "sort_desc key xs = sort_key (\<lambda>x. - key x) xs"

definition topSessions :: "string \<Rightarrow> nat \<Rightarrow> store \<Rightarrow> ref list \<Rightarrow> ranked list" where
  "topSessions metric limit h arr =
     (if arr = [] then []
      else
        let sorted = sort_desc (\<lambda>r. metric_key metric (h r)) arr
        in map (\<lambda>r. \<lparr> entry = h r,
                       rank = indexOf r sorted + 1,
                       percentile =
                         round_half_up
                           ((of_nat (length arr) - of_int (indexOf r sorted))
                              / of_nat (length arr) * 100) \<rparr>)
             (take limit sorted))"

datatype problem_type = low_attendance | low_engagement | low_rating

datatype severity = high | medium | low

record problem =
  ptype :: problem_type
  severity :: severity
  message :: string

record issue =
  issue_session :: session
  problems :: "problem list"
  overallSeverity :: severity
  recommendedActions :: "string list"

definition getRecommendedActions :: "problem list \<Rightarrow> string list" where
  "getRecommendedActions ps =
     (if list_ex (\<lambda>p. ptype p = low_attendance) ps
      then [''Send reminder notifications to registered attendees'',
            ''Consider room change or schedule adjustment'']
      else [])
     @ (if list_ex (\<lambda>p. ptype p = low_engagement) ps
        then [''Encourage speaker to increase interactivity'',
              ''Review session format and content'']
        else [])
     @ (if list_ex (\<lambda>p. ptype p = low_rating) ps
        then [''Collect detailed feedback from attendees'',
              ''Schedule follow-up with speaker'']
        else [])"

text \<open>
  The problems of one session. The rating test is
  \<open>session.averageRating && session.averageRating < 3\<close>: a missing or zero
  \<open>averageRating\<close> is falsy and gives no problem.
\<close>

definition problemsOf :: "session \<Rightarrow> problem list" where
  "problemsOf s =
     (if js_less (attendanceRate s) 30
      then [\<lparr> ptype = low_attendance, severity = high, message = ''Very low attendance'' \<rparr>]
      else if js_less (attendanceRate s) 50
      then [\<lparr> ptype = low_attendance, severity = medium,
               message = ''Below average attendance'' \<rparr>]
      else [])
     @ (if engagement s < 40
        then [\<lparr> ptype = low_engagement, severity = high, message = ''Poor engagement level'' \<rparr>]
        else if engagement s < 60
        then [\<lparr> ptype = low_engagement, severity = medium, message = ''Moderate engagement'' \<rparr>]
        else [])
     @ (case averageRating s of
          None \<Rightarrow> []
        | Some r \<Rightarrow>
            if r \<noteq> 0 \<and> r < 3
            then [\<lparr> ptype = low_rating, severity = high, message = ''Low audience rating'' \<rparr>]
            else [])"

definition issueOf :: "session \<Rightarrow> issue list" where
  "issueOf s =
     (let ps = problemsOf s
      in if 0 < length ps
         then [\<lparr> issue_session = s,
                  problems = ps,
                  overallSeverity = (if list_ex (\<lambda>p. severity p = high) ps then high else medium),
                  recommendedActions = getRecommendedActions ps \<rparr>]
         else [])"

fun severityOrder :: "severity \<Rightarrow> int" where
  "severityOrder high = 0"
| "severityOrder medium = 1"
| "severityOrder low = 2"

definition sessionsNeedingAttention :: "session list \<Rightarrow> issue list" where
  "sessionsNeedingAttention sess =
     sort_key (\<lambda>i. severityOrder (overallSeverity i)) (concat (map issueOf sess))"

text \<open>
  The values the cache of the session analytics holds, for the two methods modelled, and
  the methods themselves behind the cache (time-to-live 5000 ms). The key of
  \<open>getTopSessions\<close> is built from the metric and the limit, the key of
  \<open>getSessionsNeedingAttention\<close> is a constant; neither contains the sessions.
\<close>

datatype cached = TopSessions "ranked list" | Issues "issue list"

definition topSessionsKey :: "string \<Rightarrow> nat \<Rightarrow> string" where
  "topSessionsKey metric limit = ''topSessions_'' @ metric @ ''_'' @ string_of_nat limit"

definition getTopSessions ::
    "store \<Rightarrow> ref list \<Rightarrow> string \<Rightarrow> nat \<Rightarrow> int \<Rightarrow> cached cache \<Rightarrow> cached \<times> cached cache" where
  "getTopSessions h arr metric limit now c =
     getCachedOrCompute 5000 (topSessionsKey metric limit)
       (\<lambda>d. TopSessions (topSessions metric limit h d)) arr now c"

definition getSessionsNeedingAttention ::
    "session list \<Rightarrow> int \<Rightarrow> cached cache \<Rightarrow> cached \<times> cached cache" where
  "getSessionsNeedingAttention sess now c =
     getCachedOrCompute 5000 ''sessionsNeedingAttention''
       (\<lambda>d. Issues (sessionsNeedingAttention d)) sess now c"

section \<open>Aggregate analytics service: the cache\<close>

text \<open>
  \<open>getCacheKey(method, ...args)\<close> is the method name, a dash and the JSON text of the
  argument array; the callers pass the lengths of their arrays. The time-to-live is
  10000 ms, and a lookup that misses deletes the key.
\<close>

fun commas :: "string list \<Rightarrow> string" where
  "commas [] = []"
| "commas [x] = x"
| "commas (x # y # ys) = x @ '','' @ commas (y # ys)"

definition getCacheKey :: "string \<Rightarrow> nat list \<Rightarrow> string" where
  "getCacheKey method args = method @ ''-'' @ ''['' @ commas (map string_of_nat args) @ '']''"

definition getFromCache :: "string \<Rightarrow> int \<Rightarrow> 'v cache \<Rightarrow> 'v option \<times> 'v cache" where
  "getFromCache key now c =
     (case c key of
        Some (v, stored) \<Rightarrow>
          if now - stored < 10000 then (Some v, c) else (None, c(key := None))
      | None \<Rightarrow> (None, c(key := None)))"

definition setCache :: "string \<Rightarrow> 'v \<Rightarrow> int \<Rightarrow> 'v cache \<Rightarrow> 'v cache" where
  "setCache key v now c = c(key \<mapsto> (v, now))"

definition getOverallMetrics ::
    "session list \<Rightarrow> attendee list \<Rightarrow> feedback_rec list \<Rightarrow> int \<Rightarrow> aggregate cache
       \<Rightarrow> aggregate \<times> aggregate cache" where
  "getOverallMetrics sess as fb now c =
     (let key = getCacheKey ''overallMetrics'' [length sess, length as, length fb]
      in case getFromCache key now c of
           (Some v, c') \<Rightarrow> (v, c')
         | (None, c') \<Rightarrow>
             (aggregateMetrics sess as fb, setCache key (aggregateMetrics sess as fb) now c'))"

section \<open>Example data\<close>

text \<open>Small concrete inputs on which the operations are evaluated below.\<close>

definition example_session :: "nat \<Rightarrow> status \<Rightarrow> int \<Rightarrow> int \<Rightarrow> session" where
  "example_session i st cap att =
     \<lparr> sid = i, title = ''Testing Strategies'', speaker = ''David Kim'', speakerId = 5,
       room = ''Tech Hub'', startHour = 9, startMinute = 30, duration = 60,
       capacity = cap, currentAttendance = att, attendanceRate = js_rate att cap,
       engagement = 70, status = st, tags = [''Technology''], rating = 4,
       averageRating = None, session_feedback = [] \<rparr>"

definition example_dataset :: "session list \<Rightarrow> dataset" where
  "example_dataset ss =
     \<lparr> sessions = ss, speakers = [], attendees = [], feedback = [],
       metrics = \<lparr> totalSessions = length ss, activeSessions = length (with_status Active ss),
                   totalAttendees = 0, avgEngagement = Num 70, totalFeedback = 0,
                   avgRating = NaN \<rparr>,
       lastUpdated = 0 \<rparr>"

definition example_simulator :: "session list \<Rightarrow> nat list \<Rightarrow> simulator" where
  "example_simulator ss subs =
     \<lparr> data = example_dataset ss, dataRef = 0, nextRef = 1, subscribers = subs,
       updateInterval = Some 5000, isRunning = True, updateCount = 0, trace = [] \<rparr>"

definition example_tick :: "int \<Rightarrow> int \<Rightarrow> rng \<Rightarrow> tick" where
  "example_tick h m g = \<lparr> t_now = 1000, t_hour = h, t_minute = m, t_rng = g \<rparr>"

definition three_sessions :: "session list" where
  "three_sessions =
     [example_session 1 Upcoming 100 0, example_session 2 Active 100 60,
      example_session 3 Completed 100 80]"

definition tied_sessions :: "session list" where
  "tied_sessions =
     [example_session 1 Active 100 60, example_session 2 Active 100 80,
      example_session 3 Active 100 60, example_session 4 Active 100 90]"

text \<open>
  A store whose objects at the references \<open>0, 1, ...\<close> have the values of a list (every
  other reference holds an unused object), and three stores built so: four sessions with
  a tie in attendance, two sessions, and two different objects of equal value and id.
\<close>

definition store_of :: "session list \<Rightarrow> store" where
  "store_of ss r = (if r < length ss then ss ! r else example_session 0 Upcoming 0 0)"

definition tied_store :: store where
  "tied_store = store_of tied_sessions"

definition pair_store :: store where
  "pair_store = store_of [example_session 1 Active 100 60, example_session 2 Active 100 80]"

definition twin_store :: store where
  "twin_store = store_of [example_session 1 Active 100 60, example_session 1 Active 100 60]"

definition never :: behaviour where
  "never = (\<lambda>cb p. False)"

definition always :: behaviour where
  "always = (\<lambda>cb p. True)"

section \<open>Notions used in the properties\<close>

text \<open>The calls of callbacks recorded in a trace, in order: who was called, with what.\<close>

fun deliveries :: "event list \<Rightarrow> (nat \<times> payload) list" where
  "deliveries [] = []"
| "deliveries (Delivered cb p # es) = (cb, p) # deliveries es"
| "deliveries (e # es) = deliveries es"

text \<open>What one round of notification appends to the trace.\<close>

definition notify_events :: "behaviour \<Rightarrow> payload \<Rightarrow> nat list \<Rightarrow> event list" where
  "notify_events throws snap cbs =
     concat (map (\<lambda>cb. Delivered cb snap # (if throws cb snap then [ConsoleError cb] else [])) cbs)"

text \<open>
  Relations between a session before and after an operation: \<open>unchanged\<close> keeps id and
  status, \<open>advances\<close> allows one step along upcoming, active, completed, and
  \<open>forward\<close> any number of steps.
\<close>

fun status_rank :: "status \<Rightarrow> nat" where
  "status_rank Upcoming = 0"
| "status_rank Active = 1"
| "status_rank Completed = 2"

definition unchanged :: "session \<Rightarrow> session \<Rightarrow> bool" where
  "unchanged a b = (sid b = sid a \<and> status b = status a)"

definition advances :: "session \<Rightarrow> session \<Rightarrow> bool" where
  "advances a b =
     (sid b = sid a \<and>
      (status b = status a \<or> (status a = Upcoming \<and> status b = Active)
       \<or> (status a = Active \<and> status b = Completed)))"

definition forward :: "session \<Rightarrow> session \<Rightarrow> bool" where
  "forward a b = (sid b = sid a \<and> status_rank (status a) \<le> status_rank (status b))"

definition attendance_ok :: "session \<Rightarrow> bool" where
  "attendance_ok s = (0 \<le> currentAttendance s \<and> currentAttendance s \<le> capacity s)"

text \<open>An operation whose random stream holds values of \<open>Math.random()\<close> only.\<close>

fun valid_op :: "operation \<Rightarrow> bool" where
  "valid_op (Tick t) = valid_rng (t_rng t)"
| "valid_op (Reset now g) = valid_rng g"
| "valid_op _ = True"

text \<open>
  An attendee's registrations: at least \<open>lo\<close> and at most five session ids, none
  twice.
\<close>

definition registrations_ok :: "nat \<Rightarrow> attendee \<Rightarrow> bool" where
  "registrations_ok lo a =
     (lo \<le> length (registeredSessions a) \<and> length (registeredSessions a) \<le> 5
      \<and> distinct (registeredSessions a))"

text \<open>The fifteen sessions generated from the random stream that is constantly 0.\<close>

definition zero_sessions :: "session list" where
  "zero_sessions = map (\<lambda>j. generateSession (j + 1) j zero_rng) [0..<15]"

text \<open>
  A key is fresh in a cache when it has an entry younger than the time-to-live: exactly
  then a lookup is served from the cache.
\<close>

definition fresh :: "int \<Rightarrow> int \<Rightarrow> string \<Rightarrow> 'v cache \<Rightarrow> bool" where
  "fresh ttl now key c = (case c key of Some (v, stored) \<Rightarrow> now - stored < ttl | None \<Rightarrow> False)"

text \<open>The array in the order \<open>getTopSessions\<close> sorts it for the attendance metric.\<close>

definition by_attendance :: "store \<Rightarrow> ref list \<Rightarrow> ref list" where
  "by_attendance h arr = sort_desc (\<lambda>r. metric_key ''attendance'' (h r)) arr"

definition digits :: "char set" where
  "digits = set ''0123456789''"

text \<open>
  What \<open>getSessionsNeedingAttention\<close> tests: a session is flagged when its attendance
  rate is below 50, its engagement below 60, or its \<open>averageRating\<close> is present,
  not zero and below 3. An issue is well formed when it belongs to a flagged session and
  lists that session's problems, each of severity high or medium, with the overall
  severity and the recommended actions derived from them.
\<close>

definition flagged :: "session \<Rightarrow> bool" where
  "flagged s =
     (js_less (attendanceRate s) 50 \<or> engagement s < 60
      \<or> (case averageRating s of None \<Rightarrow> False | Some r \<Rightarrow> r \<noteq> 0 \<and> r < 3))"

definition severe :: "problem \<Rightarrow> bool" where
  "severe p = (severity p = high \<or> severity p = medium)"

definition well_formed :: "issue \<Rightarrow> bool" where
  "well_formed i =
     (flagged (issue_session i)
      \<and> problems i = problemsOf (issue_session i)
      \<and> list_all severe (problems i)
      \<and> overallSeverity i = (if list_ex (\<lambda>p. severity p = high) (problems i) then high else medium)
      \<and> recommendedActions i = getRecommendedActions (problems i))"

text \<open>A session changed to attendance rate 20, engagement 35 and average rating 2.\<close>

definition troubled :: "session \<Rightarrow> session" where
  "troubled s = s\<lparr>attendanceRate := Num 20, engagement := 35, averageRating := Some 2\<rparr>"

section \<open>Division by zero in the averages\<close>

text \<open>
  C1. The averages and ratios are meant to give 0 where the divisor is zero. Three of them
  do not. After the engagement pass on a dataset with no active session the metric
  \<open>avgEngagement\<close> is 1: \<open>0 / 0 || 1\<close> is \<open>NaN || 1\<close>. \<open>aggregateMetrics\<close> of an
  empty sessions array (total capacity 0) has the overall attendance rate \<open>NaN\<close>, and
  \<open>calculateROI\<close> of an empty sessions array has \<open>NaN\<close> as engagement score and as
  score.
\<close>

theorem division_guards_missing:
  "avgEngagement (metrics (fst (simulateEngagementFluctuation
       (example_dataset [example_session 1 Completed 100 60]) half_rng))) = Num 1
   \<and> overallAttendanceRate (aggregateMetrics [] [] []) = NaN
   \<and> roi_engagementScore (calculateROI [] []) = NaN
   \<and> roi_score (calculateROI [] []) = NaN"
  by (simp add: simulateEngagementFluctuation_def example_dataset_def example_session_def
      with_status_def sum_engagement_def sum_capacity_def sum_attendance_def num_of_int_def
      num_of_nat_def js_or_def inf_of_sign_def round_half_up_def aggregateMetrics_def
      calculateROI_def)

section \<open>Subscribers and notification\<close>

lemma deliveries_append: "deliveries (xs @ ys) = deliveries xs @ deliveries ys"
  by (induction xs rule: deliveries.induct) auto

lemma deliveries_notify_events:
  "deliveries (notify_events throws snap cbs) = map (\<lambda>cb. (cb, snap)) cbs"
  by (induction cbs) (auto simp: notify_events_def)

lemma forEach_try_notify:
  "forEach (try_notify throws snap) cbs s =
     Returned (s\<lparr>trace := trace s @ notify_events throws snap cbs\<rparr>)"
proof (induction cbs arbitrary: s)
  case Nil
  then show ?case by (simp add: notify_events_def)
next
  case (Cons cb cbs)
  then show ?case
    by (simp add: notify_events_def try_notify_def invoke_def Let_def)
qed

lemma notifySubscribers_eq:
  "notifySubscribers now throws s =
     Returned (s\<lparr>nextRef := nextRef s + 1,
                 trace := trace s @ notify_events throws (snapshot now s) (subscribers s)\<rparr>)"
  by (simp add: notifySubscribers_def forEach_try_notify)

text \<open>
  C4. The object a subscriber receives should be a copy with an \<open>updateCount\<close>. The
  call made inside \<open>subscribe\<close> is the one call of the callback there, and its argument
  is the live data object itself (its identity is \<open>dataRef\<close>), which has no
  \<open>updateCount\<close> property. \<open>notifySubscribers\<close>, by contrast, passes a new object
  (\<open>snapshot\<close>) that carries the counter.
\<close>

theorem subscribe_passes_live_object:
  "deliveries (drop (length (trace s)) (trace (state_of (subscribe throws cb s))))
     = [(cb, \<lparr> p_ref = dataRef s, p_data = data s, p_updateCount = None \<rparr>)]"
  by (simp add: subscribe_def invoke_def Let_def)

text \<open>
  C9. A tick never throws, whatever the subscribers do: \<open>performUpdate\<close> returns; the
  calls it makes are exactly one per subscriber, in order, each with the snapshot of the
  tick; and the state it leaves differs from the state left when no subscriber throws
  only in the trace (the logged errors). In particular the subscribers, the running flag
  and the timer are as before.
\<close>

theorem tick_survives_throwing_subscribers:
  "performUpdate throws t s = Returned (state_of (performUpdate throws t s))
   \<and> deliveries (drop (length (trace s)) (trace (state_of (performUpdate throws t s))))
       = map (\<lambda>cb. (cb, snapshot (t_now t)
                            (s\<lparr>updateCount := updateCount s + 1, data := mutate t (data s)\<rparr>)))
           (subscribers s)
   \<and> (state_of (performUpdate throws t s))\<lparr>trace := []\<rparr>
       = (state_of (performUpdate never t s))\<lparr>trace := []\<rparr>
   \<and> subscribers (state_of (performUpdate throws t s)) = subscribers s
   \<and> isRunning (state_of (performUpdate throws t s)) = isRunning s
   \<and> updateInterval (state_of (performUpdate throws t s)) = updateInterval s"
  by (simp add: performUpdate_def notifySubscribers_eq deliveries_notify_events)

lemma unsubscribe_idem: "unsubscribe cb (unsubscribe cb s) = unsubscribe cb s"
  by (simp add: unsubscribe_def set_delete_def)

lemma unsubscribe_funpow: "(unsubscribe cb ^^ Suc n) s = unsubscribe cb s"
  by (induction n) (simp_all add: unsubscribe_idem)

lemma distinct_set_add: "distinct xs \<Longrightarrow> distinct (set_add cb xs)"
  by (simp add: set_add_def)

lemma subscribers_subscribe:
  "subscribers (state_of (subscribe throws cb s)) = set_add cb (subscribers s)"
  by (simp add: subscribe_def invoke_def Let_def)

lemma count_set_add:
  "distinct xs \<Longrightarrow> length (filter (\<lambda>x. x = cb) (set_add cb xs)) = 1"
proof (induction xs)
  case Nil
  then show ?case by (simp add: set_add_def)
next
  case (Cons a xs)
  then show ?case by (auto simp add: set_add_def split: if_splits)
qed

text \<open>
  C10. The subscribers form a set: on a state whose subscriber list has no repetition (as
  in a new simulator, and kept by \<open>subscribe\<close>), subscribing a callback a second time
  changes nothing, and a notification then calls it exactly once. Unsubscribing any
  number of times is unsubscribing once, and it removes that callback only, keeping the
  others in their order.
\<close>

theorem subscriber_set:
  assumes "distinct (subscribers s)"
  shows "subscribers (state_of (subscribe throws cb (state_of (subscribe throws cb s))))
           = subscribers (state_of (subscribe throws cb s))
   \<and> distinct (subscribers (state_of (subscribe throws cb s)))
   \<and> length (filter (\<lambda>d. fst d = cb)
        (deliveries
           (drop (length (trace (state_of (subscribe throws cb (state_of (subscribe throws cb s))))))
              (trace (state_of (notifySubscribers now throws
                        (state_of (subscribe throws cb (state_of (subscribe throws cb s)))))))))) = 1
   \<and> (unsubscribe cb ^^ Suc n) s = unsubscribe cb s
   \<and> subscribers (unsubscribe cb s) = filter (\<lambda>x. x \<noteq> cb) (subscribers s)
   \<and> set (subscribers (unsubscribe cb s)) = set (subscribers s) - {cb}"
proof -
  let ?s2 = "state_of (subscribe throws cb (state_of (subscribe throws cb s)))"
  have twice: "subscribers ?s2 = set_add cb (subscribers s)"
    by (simp add: subscribers_subscribe set_add_def)
  have "deliveries (drop (length (trace ?s2)) (trace (state_of (notifySubscribers now throws ?s2))))
          = map (\<lambda>c. (c, snapshot now ?s2)) (set_add cb (subscribers s))"
    by (simp add: notifySubscribers_eq deliveries_notify_events twice)
  then have once: "length (filter (\<lambda>d. fst d = cb)
        (deliveries (drop (length (trace ?s2)) (trace (state_of (notifySubscribers now throws ?s2))))))
       = 1"
    using count_set_add [OF assms, of cb] by (simp add: filter_map comp_def)
  have idem: "(unsubscribe cb ^^ Suc n) s = unsubscribe cb s"
    by (rule unsubscribe_funpow)
  have others: "subscribers (unsubscribe cb s) = filter (\<lambda>x. x \<noteq> cb) (subscribers s)"
    by (simp add: unsubscribe_def set_delete_def)
  have others_set: "set (subscribers (unsubscribe cb s)) = set (subscribers s) - {cb}"
    by (auto simp add: others)
  have reg: "subscribers ?s2 = subscribers (state_of (subscribe throws cb s))"
    by (simp add: subscribers_subscribe set_add_def)
  have dist: "distinct (subscribers (state_of (subscribe throws cb s)))"
    using assms by (simp add: subscribers_subscribe distinct_set_add)
  from reg dist once idem others others_set show ?thesis
    by blast
qed

theorem subscriber_set_witness:
  "distinct (subscribers (example_simulator [] [1, 2]))
   \<and> subscribers (state_of (subscribe always 2
         (state_of (subscribe always 2 (example_simulator [] [1, 2])))))
       = subscribers (state_of (subscribe always 2 (example_simulator [] [1, 2])))
   \<and> length (filter (\<lambda>d. fst d = 2)
        (deliveries
           (drop (length (trace (state_of (subscribe always 2
                    (state_of (subscribe always 2 (example_simulator [] [1, 2])))))))
              (trace (state_of (notifySubscribers 7 always
                        (state_of (subscribe always 2
                           (state_of (subscribe always 2 (example_simulator [] [1, 2])))))))))))
      = 1
   \<and> (unsubscribe 2 ^^ Suc 3) (example_simulator [] [1, 2])
       = unsubscribe 2 (example_simulator [] [1, 2])
   \<and> subscribers (unsubscribe 2 (example_simulator [] [1, 2])) = [1]"
proof -
  have d: "distinct (subscribers (example_simulator [] [1, 2]))"
    by (simp add: example_simulator_def)
  have "subscribers (unsubscribe 2 (example_simulator [] [1, 2])) = [1]"
    by (simp add: unsubscribe_def set_delete_def example_simulator_def)
  with d subscriber_set [OF d, of always 2 7 3] show ?thesis
    by simp
qed

section \<open>Session status\<close>

lemma activePass_rel:
  assumes "\<And>s g. R s (fst (f s g))" and "\<And>s. R s s"
  shows "activePass f ss g = (ss', g') \<Longrightarrow> list_all2 R ss ss'"
proof (induction ss arbitrary: g ss' g')
  case Nil
  then show ?case by simp
next
  case (Cons s ss)
  show ?case
  proof (cases "status s = Active")
    case True
    obtain s1 g1 where f: "f s g = (s1, g1)" by fastforce
    obtain ss1 g2 where r: "activePass f ss g1 = (ss1, g2)" by fastforce
    from Cons.prems True f r have "ss' = s1 # ss1" by simp
    moreover have "R s s1" using assms(1) [of s g] f by simp
    moreover have "list_all2 R ss ss1" using Cons.IH r by blast
    ultimately show ?thesis by simp
  next
    case False
    obtain ss1 g2 where r: "activePass f ss g = (ss1, g2)" by fastforce
    from Cons.prems False r have "ss' = s # ss1" by simp
    moreover have "list_all2 R ss ss1" using Cons.IH r by blast
    ultimately show ?thesis using assms(2) by simp
  qed
qed

lemma update_kth_rel:
  assumes "\<And>x. R x (f x)" and "\<And>x. R x x"
  shows "list_all2 R xs (update_kth P k f xs)"
proof (induction xs arbitrary: k)
  case Nil
  then show ?case by simp
next
  case (Cons x xs)
  have "list_all2 R xs xs" by (rule list.rel_refl) (rule assms(2))
  with Cons assms show ?case by (cases k) simp_all
qed

lemma unchanged_refl: "unchanged s s"
  by (simp add: unchanged_def)

lemma unchanged_attendanceStep: "unchanged s (fst (attendanceStep s g))"
  by (simp add: unchanged_def attendanceStep_def recompute_rate_def Let_def)

lemma unchanged_engagementStep: "unchanged s (fst (engagementStep s g))"
  by (simp add: unchanged_def engagementStep_def Let_def)

lemma unchanged_attendance:
  "list_all2 unchanged (sessions d) (sessions (fst (simulateAttendanceChange d g)))"
proof -
  obtain ss g' where r: "activePass attendanceStep (sessions d) g = (ss, g')" by (rule prod.exhaust)
  have "list_all2 unchanged (sessions d) ss"
    using activePass_rel [OF unchanged_attendanceStep unchanged_refl r] .
  then show ?thesis by (simp add: simulateAttendanceChange_def r)
qed

lemma unchanged_engagement:
  "list_all2 unchanged (sessions d) (sessions (fst (simulateEngagementFluctuation d g)))"
proof -
  obtain ss g' where r: "activePass engagementStep (sessions d) g = (ss, g')" by (rule prod.exhaust)
  have "list_all2 unchanged (sessions d) ss"
    using activePass_rel [OF unchanged_engagementStep unchanged_refl r] .
  then show ?thesis by (simp add: simulateEngagementFluctuation_def r)
qed

lemma sessions_newFeedback:
  "sessions (fst (simulateNewFeedback now d g)) = sessions d
   \<or> (\<exists>k fbk. sessions (fst (simulateNewFeedback now d g))
        = update_kth (\<lambda>x. status x = Completed) k
            (\<lambda>x. x\<lparr>session_feedback := take 5 (fbk # session_feedback x)\<rparr>) (sessions d))"
  by (simp add: simulateNewFeedback_def Let_def) blast

lemma unchanged_same: "list_all2 unchanged ss ss"
  by (rule list.rel_refl) (rule unchanged_refl)

lemma unchanged_feedback:
  "list_all2 unchanged (sessions d) (sessions (fst (simulateNewFeedback now d g)))"
proof -
  have "list_all2 unchanged (sessions d)
      (update_kth P k (\<lambda>x. x\<lparr>session_feedback := take 5 (fbk # session_feedback x)\<rparr>) (sessions d))"
    for P k fbk
    by (rule update_kth_rel) (simp_all add: unchanged_def)
  then show ?thesis
    using sessions_newFeedback [of now d g] unchanged_same [of "sessions d"] by auto
qed

lemma sessions_newAttendee: "sessions (fst (simulateNewAttendee now d g)) = sessions d"
  by (simp add: simulateNewAttendee_def Let_def)

lemma unchanged_attendee:
  "list_all2 unchanged (sessions d) (sessions (fst (simulateNewAttendee now d g)))"
  by (simp add: sessions_newAttendee unchanged_same)

lemma advances_statusStep: "advances s (statusStep h m s)"
  by (simp add: advances_def statusStep_def recompute_rate_def Let_def)

lemma advances_status:
  "list_all2 advances (sessions d) (sessions (simulateSessionStatusChange h m d))"
proof -
  have "list_all2 (\<lambda>a b. advances a (statusStep h m b)) (sessions d) (sessions d)"
    by (rule list.rel_refl) (rule advances_statusStep)
  then show ?thesis
    by (simp add: simulateSessionStatusChange_def Let_def list_all2_map2)
qed

lemma unchanged_advances: "unchanged a b \<Longrightarrow> advances b c \<Longrightarrow> advances a c"
  by (auto simp: unchanged_def advances_def)

lemma advances_unchanged: "advances a b \<Longrightarrow> unchanged b c \<Longrightarrow> advances a c"
  by (auto simp: unchanged_def advances_def)

lemma unchanged_trans: "unchanged a b \<Longrightarrow> unchanged b c \<Longrightarrow> unchanged a c"
  by (auto simp: unchanged_def)

lemma list_all2_chain:
  assumes "\<And>a b c. R a b \<Longrightarrow> S b c \<Longrightarrow> T a c"
  shows "list_all2 R xs ys \<Longrightarrow> list_all2 S ys zs \<Longrightarrow> list_all2 T xs zs"
  using assms by (metis (mono_tags, lifting) list_all2_trans)

lemma advances_mutate: "list_all2 advances (sessions d) (sessions (mutate t d))"
proof -
  obtain d1 g1 where 1: "simulateAttendanceChange d (t_rng t) = (d1, g1)" by (rule prod.exhaust)
  obtain d2 g2 where 2: "simulateEngagementFluctuation d1 g1 = (d2, g2)" by (rule prod.exhaust)
  obtain d3 g3 where 3: "simulateNewFeedback (t_now t) d2 g2 = (d3, g3)" by (rule prod.exhaust)
  let ?d4 = "simulateSessionStatusChange (t_hour t) (t_minute t) d3"
  have m: "mutate t d = fst (simulateNewAttendee (t_now t) ?d4 g3)"
    by (simp add: mutate_def 1 2 3)
  have a: "list_all2 unchanged (sessions d) (sessions d1)"
    using unchanged_attendance [of d "t_rng t"] by (simp add: 1)
  have b: "list_all2 unchanged (sessions d1) (sessions d2)"
    using unchanged_engagement [of d1 g1] by (simp add: 2)
  have c: "list_all2 unchanged (sessions d2) (sessions d3)"
    using unchanged_feedback [of d2 "t_now t" g2] by (simp add: 3)
  have e: "list_all2 advances (sessions d3) (sessions ?d4)"
    by (rule advances_status)
  have f: "list_all2 unchanged (sessions ?d4) (sessions (mutate t d))"
    unfolding m by (rule unchanged_attendee)
  have ab: "list_all2 unchanged (sessions d) (sessions d2)"
    by (rule list_all2_chain [OF unchanged_trans a b])
  have abc: "list_all2 unchanged (sessions d) (sessions d3)"
    by (rule list_all2_chain [OF unchanged_trans ab c])
  have abce: "list_all2 advances (sessions d) (sessions ?d4)"
    by (rule list_all2_chain [OF unchanged_advances abc e])
  show ?thesis
    by (rule list_all2_chain [OF advances_unchanged abce f])
qed



lemma data_performUpdate:
  "data (state_of (performUpdate throws t s)) = mutate t (data s)"
  by (simp add: performUpdate_def notifySubscribers_eq)

lemma advances_forward: "advances a b \<Longrightarrow> forward a b"
  by (auto simp: advances_def forward_def)

lemma forward_refl: "forward a a"
  by (simp add: forward_def)

lemma forward_trans: "forward a b \<Longrightarrow> forward b c \<Longrightarrow> forward a c"
  by (auto simp: forward_def)

lemma forward_same: "list_all2 forward ss ss"
  by (rule list.rel_refl) (rule forward_refl)

lemma forward_tick:
  "list_all2 forward (sessions (data s)) (sessions (data (state_of (performUpdate throws t s))))"
  unfolding data_performUpdate
  by (rule list_all2_mono [OF advances_mutate]) (rule advances_forward)

lemma data_subscribe: "data (state_of (subscribe throws cb s)) = data s"
  by (simp add: subscribe_def invoke_def Let_def)

lemma forward_exec:
  "\<not> is_reset op \<Longrightarrow> list_all2 forward (sessions (data s)) (sessions (data (exec throws s op)))"
proof (cases op)
  case (Tick t)
  then show ?thesis by (simp add: forward_tick)
qed (simp_all add: data_subscribe unsubscribe_def start_def stop_def getData_def forward_same)

lemma forward_run:
  "list_all (\<lambda>op. \<not> is_reset op) ops \<Longrightarrow>
   list_all2 forward (sessions (data s)) (sessions (data (run throws ops s)))"
proof (induction ops arbitrary: s)
  case Nil
  then show ?case by (simp add: run_def forward_same)
next
  case (Cons op ops)
  have 1: "list_all2 forward (sessions (data s)) (sessions (data (exec throws s op)))"
    using Cons.prems by (simp add: forward_exec)
  have 2: "list_all2 forward (sessions (data (exec throws s op)))
             (sessions (data (run throws ops (exec throws s op))))"
    using Cons.IH Cons.prems by simp
  have "list_all2 forward (sessions (data s)) (sessions (data (run throws ops (exec throws s op))))"
    by (rule list_all2_chain [OF forward_trans 1 2])
  then show ?case by (simp add: run_def)
qed

lemma sessionsLoop_status:
  "map status (fst (sessionsLoop k i (ss, g)))
     = map status ss @ map (\<lambda>j. if j < 4 then Completed else if j < 8 then Active else Upcoming) [i..<i + k]"
proof (induction k arbitrary: i ss g)
  case 0
  then show ?case by simp
next
  case (Suc k)
  have u: "[i..<i + Suc k] = i # [i + 1..<i + 1 + k]"
    by (simp add: upt_conv_Cons)
  have "status (generateSession (i + 1) i g)
          = (if i < 4 then Completed else if i < 8 then Active else Upcoming)"
    by (simp add: generateSession_def Let_def)
  then show ?case
    unfolding u by (simp add: Suc.IH)
qed

lemma status_attach: "status (attach_feedback fb s) = status s"
  by (simp add: attach_feedback_def)

lemma generated_statuses:
  "map status (sessions (generateInitialData now g))
     = replicate 4 Completed @ replicate 4 Active @ replicate 7 Upcoming"
proof -
  obtain ss g1 where 1: "sessionsLoop 15 0 ([], g) = (ss, g1)" by (rule prod.exhaust)
  obtain sp g2 where 2: "speakersLoop SPEAKER_NAMES 0 ([], g1) = (sp, g2)" by (rule prod.exhaust)
  obtain as fb g3 where 3: "attendeesLoop 847 0 ss now ([], [], g2) = (as, fb, g3)"
    by (rule prod_cases3)
  have "sessions (generateInitialData now g) = map (attach_feedback fb) ss"
    by (simp add: generateInitialData_def 1 2 3 Let_def)
  moreover have "map status ss
      = map (\<lambda>j. if j < 4 then Completed else if j < 8 then Active else Upcoming) [0..<15]"
    using sessionsLoop_status [of 15 0 "[]" g] by (simp add: 1)
  moreover have "[0..<15] = [0,1,2,3,4,5,6,7,8,9,10,11,12,13,14::nat]"
    by (simp add: upt_rec)
  ultimately show ?thesis
    by (simp add: comp_def status_attach numeral_eq_Suc)
qed

lemma data_reset: "data (state_of (reset now g throws s)) = generateInitialData now g"
  by (simp add: reset_def notifySubscribers_eq Let_def)


lemma forward_completed: "forward a b \<Longrightarrow> status a = Completed \<Longrightarrow> status b = Completed"
  by (cases "status b") (simp_all add: forward_def)

text \<open>
  C6. In one tick every session keeps its place and id, and its status stays or takes one
  step along upcoming, active, completed. Over any run of operations without
  \<open>reset\<close> (ticks, subscribe, unsubscribe, start, stop, reads) the status never
  moves backward, and a completed session stays completed. \<open>reset\<close> replaces the
  dataset by a generated one, whose sessions 9 to 15 are upcoming whatever they were.
\<close>

theorem status_only_moves_forward:
  "list_all2 advances (sessions (data s)) (sessions (data (state_of (performUpdate throws t s))))
   \<and> (list_all (\<lambda>op. \<not> is_reset op) ops \<longrightarrow>
        list_all2 forward (sessions (data s)) (sessions (data (run throws ops s))))
   \<and> (forward a b \<and> status a = Completed \<longrightarrow> status b = Completed)
   \<and> map status (sessions (data (state_of (reset now g throws s))))
        = replicate 4 Completed @ replicate 4 Active @ replicate 7 Upcoming"
  using advances_mutate [of "data s" t] forward_run [of ops s throws] forward_completed [of a b]
  by (simp add: data_performUpdate data_reset generated_statuses)

lemma valid_half: "valid_rng half_rng"
  by (simp add: valid_rng_def half_rng_def)

lemma tick_statuses:
  "map status (sessions (mutate (example_tick 10 0 half_rng) (example_dataset three_sessions)))
     = [Active, Active, Completed]"
  by (simp add: mutate_def example_tick_def example_dataset_def three_sessions_def
      example_session_def simulateAttendanceChange_def simulateEngagementFluctuation_def
      simulateNewFeedback_def simulateSessionStatusChange_def simulateNewAttendee_def
      attendanceStep_def engagementStep_def statusStep_def recompute_rate_def half_rng_def
      adv_def Let_def with_status_def)

theorem status_only_moves_forward_witness:
  "list_all (\<lambda>op. \<not> is_reset op) [Tick (example_tick 10 0 half_rng), Stop, Tick (example_tick 11 0 half_rng)]
   \<and> list_all2 forward three_sessions
        (sessions (data (run always [Tick (example_tick 10 0 half_rng), Stop, Tick (example_tick 11 0 half_rng)]
                           (example_simulator three_sessions [1]))))
   \<and> list_all2 advances three_sessions
        (sessions (data (state_of (performUpdate always (example_tick 10 0 half_rng)
                           (example_simulator three_sessions [1])))))
   \<and> map status (sessions (data (state_of (performUpdate always (example_tick 10 0 half_rng)
                           (example_simulator three_sessions [1])))))
       = [Active, Active, Completed]"
  using tick_statuses status_only_moves_forward [of "example_simulator three_sessions [1]" always
      "example_tick 10 0 half_rng"
      "[Tick (example_tick 10 0 half_rng), Stop, Tick (example_tick 11 0 half_rng)]"]
  by (simp add: example_simulator_def example_dataset_def data_performUpdate)

section \<open>Attendance and capacity\<close>

lemma valid_adv: "valid_rng g \<Longrightarrow> valid_rng (adv k g)"
  by (simp add: valid_rng_def adv_def)

lemma valid_nth: "valid_rng g \<Longrightarrow> 0 \<le> g n \<and> g n < 1"
  by (simp add: valid_rng_def)

lemma random_below_bounds:
  assumes "0 \<le> r" and "r < 1" and "0 \<le> n"
  shows "0 \<le> random_below r n \<and> random_below r n \<le> n"
proof -
  have "0 \<le> r * of_int n" using assms by simp
  moreover have "r * of_int n \<le> of_int n"
    using assms by (simp add: mult_left_le_one_le)
  ultimately show ?thesis
    unfolding random_below_def by (simp add: floor_le_iff le_floor_iff) 
qed

lemma attendance_ok_attendanceStep:
  assumes "valid_rng g" and "attendance_ok s"
  shows "attendance_ok (fst (attendanceStep s g))"
proof -
  have c: "0 \<le> currentAttendance s" "currentAttendance s \<le> capacity s"
    using assms(2) by (simp_all add: attendance_ok_def)
  have r: "0 \<le> g 1" "g 1 < 1" using valid_nth [OF assms(1)] by simp_all
  have up: "0 \<le> random_below (g 1) (min 5 (capacity s - currentAttendance s))"
    using random_below_bounds [OF r, of "min 5 (capacity s - currentAttendance s)"] c by simp
  have down: "0 \<le> random_below (g 1) (min 3 (currentAttendance s))"
    using random_below_bounds [OF r, of "min 3 (currentAttendance s)"] c by simp
  show ?thesis
    using c up down
    by (simp add: attendanceStep_def Let_def recompute_rate_def attendance_ok_def)
qed

lemma valid_attendanceStep: "valid_rng g \<Longrightarrow> valid_rng (snd (attendanceStep s g))"
  by (simp add: attendanceStep_def Let_def valid_adv)

lemma attendance_ok_engagementStep:
  "attendance_ok s \<Longrightarrow> attendance_ok (fst (engagementStep s g))"
  by (simp add: engagementStep_def Let_def attendance_ok_def)

lemma valid_engagementStep: "valid_rng g \<Longrightarrow> valid_rng (snd (engagementStep s g))"
  by (simp add: engagementStep_def Let_def valid_adv)

lemma activePass_inv:
  assumes "\<And>s g. valid_rng g \<Longrightarrow> P s \<Longrightarrow> P (fst (f s g))"
    and "\<And>s g. valid_rng g \<Longrightarrow> valid_rng (snd (f s g))"
  shows "valid_rng g \<Longrightarrow> list_all P ss \<Longrightarrow> activePass f ss g = (ss', g')
         \<Longrightarrow> list_all P ss' \<and> valid_rng g'"
proof (induction ss arbitrary: g ss' g')
  case Nil
  then show ?case by simp
next
  case (Cons s ss)
  show ?case
  proof (cases "status s = Active")
    case True
    obtain s1 g1 where f: "f s g = (s1, g1)" by (rule prod.exhaust)
    obtain ss1 g2 where r: "activePass f ss g1 = (ss1, g2)" by (rule prod.exhaust)
    from Cons.prems True f r have e: "ss' = s1 # ss1" "g' = g2" by simp_all
    have "P s1" using assms(1) [of g s] Cons.prems f by simp
    moreover have "valid_rng g1" using assms(2) [of g s] Cons.prems f by simp
    moreover from this have "list_all P ss1 \<and> valid_rng g2"
      using Cons.IH [of g1 ss1 g2] Cons.prems r by simp
    ultimately show ?thesis using e by simp
  next
    case False
    obtain ss1 g2 where r: "activePass f ss g = (ss1, g2)" by (rule prod.exhaust)
    from Cons.prems False r have e: "ss' = s # ss1" "g' = g2" by simp_all
    have "list_all P ss1 \<and> valid_rng g2"
      using Cons.IH [of g ss1 g2] Cons.prems r by simp
    then show ?thesis using e Cons.prems by simp
  qed
qed

lemma update_kth_inv:
  assumes "\<And>x. Q x \<Longrightarrow> Q (f x)"
  shows "list_all Q xs \<Longrightarrow> list_all Q (update_kth P k f xs)"
proof (induction xs arbitrary: k)
  case Nil
  then show ?case by simp
next
  case (Cons x xs)
  with assms show ?case by (cases k) simp_all
qed

lemma ok_attendance:
  assumes "valid_rng g" and "list_all attendance_ok (sessions d)"
  shows "list_all attendance_ok (sessions (fst (simulateAttendanceChange d g)))
         \<and> valid_rng (snd (simulateAttendanceChange d g))"
proof -
  obtain ss g' where r: "activePass attendanceStep (sessions d) g = (ss, g')"
    by (rule prod.exhaust)
  have "list_all attendance_ok ss \<and> valid_rng g'"
    using activePass_inv [of attendance_ok attendanceStep g "sessions d" ss g']
      attendance_ok_attendanceStep valid_attendanceStep assms r by blast
  then show ?thesis by (simp add: simulateAttendanceChange_def r)
qed

lemma ok_engagement:
  assumes "valid_rng g" and "list_all attendance_ok (sessions d)"
  shows "list_all attendance_ok (sessions (fst (simulateEngagementFluctuation d g)))
         \<and> valid_rng (snd (simulateEngagementFluctuation d g))"
proof -
  obtain ss g' where r: "activePass engagementStep (sessions d) g = (ss, g')"
    by (rule prod.exhaust)
  have "list_all attendance_ok ss \<and> valid_rng g'"
    using activePass_inv [of attendance_ok engagementStep g "sessions d" ss g']
      attendance_ok_engagementStep valid_engagementStep assms r by blast
  then show ?thesis by (simp add: simulateEngagementFluctuation_def r)
qed

lemma ok_feedback:
  assumes "list_all attendance_ok (sessions d)"
  shows "list_all attendance_ok (sessions (fst (simulateNewFeedback now d g)))"
proof -
  have "list_all attendance_ok
      (update_kth P k (\<lambda>x. x\<lparr>session_feedback := take 5 (fbk # session_feedback x)\<rparr>) (sessions d))"
    for P k fbk
    by (rule update_kth_inv) (simp_all add: attendance_ok_def assms)
  then show ?thesis
    using sessions_newFeedback [of now d g] assms by auto
qed

lemma valid_feedback: "valid_rng g \<Longrightarrow> valid_rng (snd (simulateNewFeedback now d g))"
  by (simp add: simulateNewFeedback_def Let_def valid_adv)

lemma attendance_ok_statusStep:
  assumes "attendance_ok s"
  shows "attendance_ok (statusStep h m s)"
proof -
  have c: "0 \<le> capacity s" using assms by (simp add: attendance_ok_def)
  have "0 \<le> random_below (3 / 10) (capacity s) \<and> random_below (3 / 10) (capacity s) \<le> capacity s"
    by (rule random_below_bounds) (simp_all add: c)
  then have "0 \<le> \<lfloor>(of_int (capacity s) :: real) * (3 / 10)\<rfloor>
             \<and> \<lfloor>(of_int (capacity s) :: real) * (3 / 10)\<rfloor> \<le> capacity s"
    by (simp add: random_below_def mult.commute)
  then show ?thesis
    using assms by (simp add: statusStep_def Let_def recompute_rate_def attendance_ok_def)
qed

lemma ok_status:
  "list_all attendance_ok (sessions d)
   \<Longrightarrow> list_all attendance_ok (sessions (simulateSessionStatusChange h m d))"
  by (simp add: simulateSessionStatusChange_def Let_def list_all_iff attendance_ok_statusStep)

lemma ok_mutate:
  assumes "valid_rng (t_rng t)" and "list_all attendance_ok (sessions d)"
  shows "list_all attendance_ok (sessions (mutate t d))"
proof -
  obtain d1 g1 where 1: "simulateAttendanceChange d (t_rng t) = (d1, g1)" by (rule prod.exhaust)
  obtain d2 g2 where 2: "simulateEngagementFluctuation d1 g1 = (d2, g2)" by (rule prod.exhaust)
  obtain d3 g3 where 3: "simulateNewFeedback (t_now t) d2 g2 = (d3, g3)" by (rule prod.exhaust)
  let ?d4 = "simulateSessionStatusChange (t_hour t) (t_minute t) d3"
  have m: "mutate t d = fst (simulateNewAttendee (t_now t) ?d4 g3)"
    by (simp add: mutate_def 1 2 3)
  have a: "list_all attendance_ok (sessions d1) \<and> valid_rng g1"
    using ok_attendance [OF assms] by (simp add: 1)
  then have b: "list_all attendance_ok (sessions d2)"
    using ok_engagement [of g1 d1] by (simp add: 2)
  then have c: "list_all attendance_ok (sessions d3)"
    using ok_feedback [of d2 "t_now t" g2] by (simp add: 3)
  then have "list_all attendance_ok (sessions ?d4)"
    by (rule ok_status)
  then show ?thesis
    by (simp add: m sessions_newAttendee)
qed

lemma attendance_ok_generateSession:
  assumes "valid_rng g"
  shows "attendance_ok (generateSession ident index g)"
proof -
  define cap where "cap = 50 + random_below (g 0) 150"
  have g0: "0 \<le> g 0" "g 0 < 1" and g1: "0 \<le> g 1" "g 1 < 1"
    using valid_nth [OF assms] by simp_all
  have "0 \<le> random_below (g 0) 150"
    using random_below_bounds [OF g0, of 150] by simp
  then have c: "0 \<le> cap" by (simp add: cap_def)
  have f: "0 \<le> 1 / 2 + g 1 * (1 / 2)" "1 / 2 + g 1 * (1 / 2) < 1"
    using g1 by simp_all
  have "0 \<le> random_below (1 / 2 + g 1 * (1 / 2)) cap
        \<and> random_below (1 / 2 + g 1 * (1 / 2)) cap \<le> cap"
    by (rule random_below_bounds [OF f c])
  then have "0 \<le> \<lfloor>of_int cap * (1 / 2 + g 1 * (1 / 2))\<rfloor>
             \<and> \<lfloor>of_int cap * (1 / 2 + g 1 * (1 / 2))\<rfloor> \<le> cap"
    by (simp add: random_below_def mult.commute)
  then show ?thesis
    by (simp add: generateSession_def Let_def attendance_ok_def cap_def)
qed

lemma sessionsLoop_ok:
  "valid_rng g \<Longrightarrow> list_all attendance_ok ss
   \<Longrightarrow> list_all attendance_ok (fst (sessionsLoop k i (ss, g)))"
proof (induction k arbitrary: i ss g)
  case 0
  then show ?case by simp
next
  case (Suc k)
  then show ?case
    by (simp add: valid_adv attendance_ok_generateSession)
qed

lemma attendance_ok_attach: "attendance_ok (attach_feedback fb s) = attendance_ok s"
  by (simp add: attach_feedback_def attendance_ok_def)

lemma generated_ok:
  assumes "valid_rng g"
  shows "list_all attendance_ok (sessions (generateInitialData now g))"
proof -
  obtain ss g1 where 1: "sessionsLoop 15 0 ([], g) = (ss, g1)" by (rule prod.exhaust)
  obtain sp g2 where 2: "speakersLoop SPEAKER_NAMES 0 ([], g1) = (sp, g2)" by (rule prod.exhaust)
  obtain as fb g3 where 3: "attendeesLoop 847 0 ss now ([], [], g2) = (as, fb, g3)"
    by (rule prod_cases3)
  have "sessions (generateInitialData now g) = map (attach_feedback fb) ss"
    by (simp add: generateInitialData_def 1 2 3 Let_def)
  moreover have "list_all attendance_ok ss"
    using sessionsLoop_ok [OF assms, of "[]" 15 0] by (simp add: 1)
  ultimately show ?thesis
    by (simp add: list_all_iff attendance_ok_attach)
qed

lemma ok_exec:
  assumes "valid_op op" and "list_all attendance_ok (sessions (data s))"
  shows "list_all attendance_ok (sessions (data (exec throws s op)))"
proof (cases op)
  case (Tick t)
  then show ?thesis using assms ok_mutate [of t "data s"] by (simp add: data_performUpdate)
next
  case (Reset now g)
  then show ?thesis using assms generated_ok [of g now] by (simp add: data_reset)
qed (use assms in \<open>simp_all add: data_subscribe unsubscribe_def start_def stop_def getData_def\<close>)

lemma ok_run:
  "list_all valid_op ops \<Longrightarrow> list_all attendance_ok (sessions (data s))
   \<Longrightarrow> list_all attendance_ok (sessions (data (run throws ops s)))"
proof (induction ops arbitrary: s)
  case Nil
  then show ?case by (simp add: run_def)
next
  case (Cons op ops)
  have "list_all attendance_ok (sessions (data (exec throws s op)))"
    using Cons.prems by (simp add: ok_exec)
  then have "list_all attendance_ok (sessions (data (run throws ops (exec throws s op))))"
    using Cons.IH Cons.prems by simp
  then show ?case by (simp add: run_def)
qed

text \<open>
  C5. With random values in \<open>[0, 1)\<close>, every generated session has
  \<open>0 \<le> currentAttendance \<le> capacity\<close>; a tick (all five passes) keeps this true
  of every session of the dataset; and so it holds in every state that a new simulator
  reaches by any operations.
\<close>

theorem attendance_within_capacity:
  assumes "valid_rng g"
  shows "list_all attendance_ok (sessions (generateInitialData now g))
   \<and> (valid_rng (t_rng t) \<and> list_all attendance_ok (sessions (data s)) \<longrightarrow>
        list_all attendance_ok (sessions (data (state_of (performUpdate throws t s)))))
   \<and> (list_all valid_op ops \<longrightarrow>
        list_all attendance_ok (sessions (data (run throws ops (newSimulator now g)))))"
proof -
  have "list_all attendance_ok (sessions (data (newSimulator now g)))"
    using generated_ok [OF assms, of now] by (simp add: newSimulator_def)
  then show ?thesis
    using generated_ok [OF assms, of now] ok_mutate [of t "data s"]
      ok_run [of ops "newSimulator now g" throws]
    by (simp add: data_performUpdate)
qed

theorem attendance_within_capacity_witness:
  "valid_rng half_rng
   \<and> valid_rng (t_rng (example_tick 10 0 half_rng))
   \<and> list_all attendance_ok (sessions (data (example_simulator three_sessions [1])))
   \<and> list_all valid_op [Tick (example_tick 10 0 half_rng), Reset 5 half_rng]
   \<and> list_all attendance_ok (sessions (generateInitialData 0 half_rng))
   \<and> list_all attendance_ok
        (sessions (data (state_of (performUpdate always (example_tick 10 0 half_rng)
                           (example_simulator three_sessions [1])))))
   \<and> list_all attendance_ok
        (sessions (data (run always [Tick (example_tick 10 0 half_rng), Reset 5 half_rng]
                           (newSimulator 0 half_rng))))"
proof -
  have 1: "valid_rng (t_rng (example_tick 10 0 half_rng))"
    by (simp add: example_tick_def valid_half)
  have 2: "list_all attendance_ok (sessions (data (example_simulator three_sessions [1])))"
    by (simp add: example_simulator_def example_dataset_def three_sessions_def
        example_session_def attendance_ok_def)
  have 3: "list_all valid_op [Tick (example_tick 10 0 half_rng), Reset 5 half_rng]"
    by (simp add: 1 valid_half)
  show ?thesis
    using attendance_within_capacity [OF valid_half, where now = 0
        and t = "example_tick 10 0 half_rng" and s = "example_simulator three_sessions [1]"
        and throws = always and ops = "[Tick (example_tick 10 0 half_rng), Reset 5 half_rng]"]
      1 2 3 valid_half
    by simp
qed

section \<open>Registrations of generated attendees\<close>

lemma random_below_less:
  assumes "0 \<le> r" and "r < 1" and "0 < n"
  shows "random_below r n < n"
proof -
  have "r * of_int n < of_int n" using assms by simp
  then show ?thesis
    unfolding random_below_def by (simp add: floor_less_iff)
qed

lemma registerStep_inv:
  assumes "registerStep ss now (sel, a, fb, g) = (sel', a', fb', g')"
    and "registeredSessions a = sel" and "distinct sel" and "valid_rng g"
  shows "registeredSessions a' = sel' \<and> distinct sel' \<and> valid_rng g'
         \<and> length sel \<le> length sel' \<and> length sel' \<le> length sel + 1 \<and> sel' \<noteq> []"
  using assms
  by (auto simp: registerStep_def Let_def valid_adv split: if_splits)

lemma registerLoop_inv:
  assumes "registerLoop k ss now (sel, a, fb, g) = (sel', a', fb', g')"
    and "registeredSessions a = sel" and "distinct sel" and "valid_rng g"
  shows "registeredSessions a' = sel' \<and> distinct sel' \<and> valid_rng g'
         \<and> length sel \<le> length sel' \<and> length sel' \<le> length sel + k
         \<and> (0 < k \<longrightarrow> sel' \<noteq> [])"
  using assms
proof (induction k arbitrary: sel a fb g)
  case 0
  then show ?case by auto
next
  case (Suc k)
  obtain sel1 a1 fb1 g1 where s: "registerStep ss now (sel, a, fb, g) = (sel1, a1, fb1, g1)"
    by (rule prod_cases4)
  have 1: "registeredSessions a1 = sel1 \<and> distinct sel1 \<and> valid_rng g1
         \<and> length sel \<le> length sel1 \<and> length sel1 \<le> length sel + 1 \<and> sel1 \<noteq> []"
    using registerStep_inv [OF s] Suc.prems by simp
  have r: "registerLoop k ss now (sel1, a1, fb1, g1) = (sel', a', fb', g')"
    using Suc.prems(1) s by simp
  have 2: "registeredSessions a' = sel' \<and> distinct sel' \<and> valid_rng g'
         \<and> length sel1 \<le> length sel' \<and> length sel' \<le> length sel1 + k"
    using Suc.IH [OF r] 1 by simp
  from 1 2 show ?case by auto
qed

lemma attendeeStep_inv:
  assumes "attendeeStep i ss now (as, fb, g) = (as', fb', g')" and "valid_rng g"
  shows "\<exists>a. as' = as @ [a] \<and> registrations_ok 1 a \<and> valid_rng g'"
proof -
  let ?a = "generateAttendee (i + 1) now g"
  let ?g1 = "adv 6 g"
  let ?n = "nat (2 + random_below (?g1 0) 4)"
  obtain sel a1 fb1 g2 where
    r: "registerLoop ?n ss now ([], ?a, fb, adv 1 ?g1) = (sel, a1, fb1, g2)"
    by (rule prod_cases4)
  have v: "valid_rng ?g1" using assms(2) by (rule valid_adv)
  have b: "0 \<le> random_below (?g1 0) 4" "random_below (?g1 0) 4 < 4"
    using random_below_bounds [of "?g1 0" 4] random_below_less [of "?g1 0" 4] valid_nth [OF v]
    by simp_all
  then have n: "0 < ?n" "?n \<le> 5" by simp_all
  have e: "registeredSessions ?a = []"
    by (simp add: generateAttendee_def Let_def)
  have "registeredSessions a1 = sel \<and> distinct sel \<and> valid_rng g2
         \<and> length sel \<le> 0 + ?n \<and> sel \<noteq> []"
    using registerLoop_inv [OF r e] valid_adv [OF v, of 1] n by auto
  then have "registrations_ok 1 a1 \<and> valid_rng g2"
    using n by (cases sel) (auto simp: registrations_ok_def)
  moreover have "as' = as @ [a1]" "g' = g2"
    using assms(1) r by (simp_all add: attendeeStep_def Let_def)
  ultimately show ?thesis by simp
qed

lemma attendeesLoop_inv:
  assumes "attendeesLoop k i ss now (as, fb, g) = (as', fb', g')"
    and "valid_rng g" and "list_all (registrations_ok 1) as"
  shows "list_all (registrations_ok 1) as' \<and> length as' = length as + k"
  using assms
proof (induction k arbitrary: i as fb g)
  case 0
  then show ?case by simp
next
  case (Suc k)
  obtain as1 fb1 g1 where s: "attendeeStep i ss now (as, fb, g) = (as1, fb1, g1)"
    by (rule prod_cases3)
  obtain a where a: "as1 = as @ [a]" "registrations_ok 1 a" "valid_rng g1"
    using attendeeStep_inv [OF s Suc.prems(2)] by blast
  have r: "attendeesLoop k (i + 1) ss now (as1, fb1, g1) = (as', fb', g')"
    using Suc.prems(1) s by simp
  have "list_all (registrations_ok 1) as1"
    using a Suc.prems(3) by simp
  then show ?case
    using Suc.IH [OF r a(3)] a(1) by simp
qed

lemma valid_sessionsLoop: "valid_rng g \<Longrightarrow> valid_rng (snd (sessionsLoop k i (ss, g)))"
  by (induction k arbitrary: i ss g) (simp_all add: valid_adv)

lemma valid_speakersLoop: "valid_rng g \<Longrightarrow> valid_rng (snd (speakersLoop ns i (sp, g)))"
  by (induction ns arbitrary: i sp g) (simp_all add: valid_adv)

lemma adv_zero: "adv k zero_rng = zero_rng"
  by (simp add: adv_def zero_rng_def)

lemma zero_sessionsLoop:
  "sessionsLoop k i (ss, zero_rng)
     = (ss @ map (\<lambda>j. generateSession (j + 1) j zero_rng) [i..<i + k], zero_rng)"
proof (induction k arbitrary: i ss)
  case 0
  then show ?case by simp
next
  case (Suc k)
  have u: "[i..<i + Suc k] = i # [i + 1..<i + 1 + k]"
    by (simp add: upt_conv_Cons)
  show ?case
    unfolding u by (simp add: Suc.IH adv_zero)
qed

lemma zero_speakersLoop: "snd (speakersLoop ns i (sp, zero_rng)) = zero_rng"
  by (induction ns arbitrary: i sp) (simp_all add: adv_zero)

lemma attendeeStep_appends:
  "\<exists>a fb' g'. attendeeStep i ss now (as, fb, g) = (as @ [a], fb', g')"
  by (simp add: attendeeStep_def Let_def split: prod.splits)

lemma attendeesLoop_prefix:
  "\<exists>rest. fst (attendeesLoop k i ss now (as, fb, g)) = as @ rest"
proof (induction k arbitrary: i as fb g)
  case 0
  then show ?case by simp
next
  case (Suc k)
  obtain a fb' g' where s: "attendeeStep i ss now (as, fb, g) = (as @ [a], fb', g')"
    using attendeeStep_appends by blast
  obtain rest where "fst (attendeesLoop k (i + 1) ss now (as @ [a], fb', g')) = (as @ [a]) @ rest"
    using Suc.IH by blast
  then show ?case by (simp add: s)
qed

lemma first_attendee:
  "fst (attendeesLoop (Suc k) 0 ss now ([], [], g)) ! 0 = fst (attendeeStep 0 ss now ([], [], g)) ! 0"
proof -
  obtain a fb' g' where s: "attendeeStep 0 ss now ([], [], g) = ([] @ [a], fb', g')"
    using attendeeStep_appends by blast
  obtain rest where "fst (attendeesLoop k (0 + 1) ss now ([a], fb', g')) = [a] @ rest"
    using attendeesLoop_prefix by blast
  then show ?thesis using s by simp
qed

lemma zero_sessions_eq: "sessionsLoop 15 0 ([], zero_rng) = (zero_sessions, zero_rng)"
  by (simp add: zero_sessionsLoop zero_sessions_def)

lemma zero_pick: "pick 0 zero_sessions = generateSession 1 0 zero_rng"
  by (simp add: pick_def random_below_def zero_sessions_def upt_rec)

lemma zero_first:
  "registeredSessions (fst (attendeeStep 0 zero_sessions 0 ([], [], zero_rng)) ! 0) = [1]"
proof -
  have s: "sid (generateSession (Suc 0) 0 zero_rng) = Suc 0"
    "status (generateSession (Suc 0) 0 zero_rng) = Completed"
    by (simp_all add: generateSession_def Let_def)
  have z: "zero_rng n = 0" for n by (simp add: zero_rng_def)
  have r: "random_below 0 4 = 0" by (simp add: random_below_def)
  have two: "(2::nat) = Suc (Suc 0)" by simp
  show ?thesis
    by (simp add: attendeeStep_def registerStep_def Let_def adv_zero z r two zero_pick s
        generateAttendee_def)
qed

text \<open>
  C7, as stated, fails: the number of registrations can be 1. With every random value 0
  the first attendee makes two attempts, both draw the first session, and the second
  attempt is skipped: the attendee is registered for session 1 only.
\<close>

theorem single_registration:
  "registeredSessions (attendees (generateInitialData 0 zero_rng) ! 0) = [1]"
proof -
  obtain sp g2 where 2: "speakersLoop SPEAKER_NAMES 0 ([], zero_rng) = (sp, g2)"
    by (rule prod.exhaust)
  have g2: "g2 = zero_rng"
    using zero_speakersLoop [of SPEAKER_NAMES 0 "[]"] by (simp add: 2)
  obtain as fb g3 where 3: "attendeesLoop 847 0 zero_sessions 0 ([], [], zero_rng) = (as, fb, g3)"
    by (rule prod_cases3)
  have n: "(847::nat) = Suc 846" by simp
  have "as ! 0 = fst (attendeeStep 0 zero_sessions 0 ([], [], zero_rng)) ! 0"
    using first_attendee [of 846 zero_sessions 0 zero_rng] unfolding n [symmetric] by (simp add: 3)
  moreover have "attendees (generateInitialData 0 zero_rng) = as"
    by (simp add: generateInitialData_def zero_sessions_eq 2 g2 3 Let_def)
  ultimately show ?thesis
    by (simp add: zero_first)
qed

text \<open>
  C7, amended. With random values in \<open>[0, 1)\<close>, each of the 847 generated attendees
  is registered for at least one and at most five sessions, none twice: two to five
  attempts are made, the first always registers, and an attempt that draws a session
  already selected adds nothing.
\<close>

theorem registrations_one_to_five:
  assumes "valid_rng g"
  shows "list_all (registrations_ok 1) (attendees (generateInitialData now g))
         \<and> length (attendees (generateInitialData now g)) = 847"
proof -
  obtain ss g1 where 1: "sessionsLoop 15 0 ([], g) = (ss, g1)" by (rule prod.exhaust)
  obtain sp g2 where 2: "speakersLoop SPEAKER_NAMES 0 ([], g1) = (sp, g2)" by (rule prod.exhaust)
  obtain as fb g3 where 3: "attendeesLoop 847 0 ss now ([], [], g2) = (as, fb, g3)"
    by (rule prod_cases3)
  have "valid_rng g1" using valid_sessionsLoop [OF assms, of 15 0 "[]"] by (simp add: 1)
  then have "valid_rng g2" using valid_speakersLoop [of g1 SPEAKER_NAMES 0 "[]"] by (simp add: 2)
  then have "list_all (registrations_ok 1) as \<and> length as = 0 + 847"
    using attendeesLoop_inv [OF 3] by simp
  moreover have "attendees (generateInitialData now g) = as"
    by (simp add: generateInitialData_def 1 2 3 Let_def)
  ultimately show ?thesis by simp
qed

lemma valid_zero: "valid_rng zero_rng"
  by (simp add: valid_rng_def zero_rng_def)

theorem registrations_one_to_five_witness:
  "valid_rng zero_rng
   \<and> list_all (registrations_ok 1) (attendees (generateInitialData 0 zero_rng))
   \<and> length (attendees (generateInitialData 0 zero_rng)) = 847"
  using registrations_one_to_five [OF valid_zero, of 0] valid_zero by simp

section \<open>Caches and rankings\<close>

lemma getCachedOrCompute_miss:
  "\<not> fresh ttl now key c \<Longrightarrow>
   getCachedOrCompute ttl key f d now c = (f d, c(key \<mapsto> (f d, now)))"
  by (auto simp: getCachedOrCompute_def fresh_def split: option.splits)

lemma getCachedOrCompute_hit:
  "c key = Some (v, stored) \<Longrightarrow> now - stored < ttl \<Longrightarrow>
   getCachedOrCompute ttl key f d now c = (v, c)"
  by (simp add: getCachedOrCompute_def)

lemma indexOf_nth:
  "distinct xs \<Longrightarrow> i < length xs \<Longrightarrow> indexOf (xs ! i) xs = int i"
proof (induction xs arbitrary: i)
  case Nil
  then show ?case by simp
next
  case (Cons x xs)
  show ?case
  proof (cases i)
    case 0
    then show ?thesis by simp
  next
    case (Suc j)
    then have "xs ! j \<noteq> x" using Cons.prems by auto
    moreover have "indexOf (xs ! j) xs = int j" using Cons Suc by simp
    ultimately show ?thesis using Suc by (simp add: Let_def)
  qed
qed

lemma attendance_key: "metric_key ''attendance'' s = of_int (currentAttendance s)"
  by (simp add: metric_key_def)

lemma by_attendance_mset: "mset (by_attendance h arr) = mset arr"
  by (simp add: by_attendance_def sort_desc_def)

lemma by_attendance_length: "length (by_attendance h arr) = length arr"
  by (simp add: by_attendance_def sort_desc_def)

lemma by_attendance_distinct: "distinct (by_attendance h arr) = distinct arr"
  by (simp add: by_attendance_def sort_desc_def)

lemma by_attendance_sorted:
  "sorted_wrt (\<lambda>a b. currentAttendance (h b) \<le> currentAttendance (h a)) (by_attendance h arr)"
proof -
  have "sorted (map (\<lambda>r. - metric_key ''attendance'' (h r)) (by_attendance h arr))"
    by (simp add: by_attendance_def sort_desc_def)
  then show ?thesis
    by (simp add: sorted_map attendance_key)
qed

lemma by_attendance_stable:
  "filter (\<lambda>r. currentAttendance (h r) = k) (by_attendance h arr)
     = filter (\<lambda>r. currentAttendance (h r) = k) arr"
proof -
  have "filter (\<lambda>r. - metric_key ''attendance'' (h r) = - of_int k) (by_attendance h arr)
          = filter (\<lambda>r. - metric_key ''attendance'' (h r) = - of_int k) arr"
    unfolding by_attendance_def sort_desc_def by (rule sort_key_stable)
  then show ?thesis by (simp add: attendance_key)
qed

lemma topSessions_entries:
  "map entry (topSessions ''attendance'' N h arr) = map h (take N (by_attendance h arr))"
  by (cases arr) (simp_all add: topSessions_def Let_def comp_def by_attendance_def sort_desc_def)

lemma topSessions_nth:
  assumes "distinct arr" and "i < length (topSessions ''attendance'' N h arr)"
  shows "rank (topSessions ''attendance'' N h arr ! i) = int i + 1
       \<and> percentile (topSessions ''attendance'' N h arr ! i)
           = round_half_up ((of_nat (length arr) - of_int (int i)) / of_nat (length arr) * 100)"
proof -
  let ?sorted = "by_attendance h arr"
  have ne: "arr \<noteq> []" using assms(2) by (auto simp: topSessions_def)
  have i: "i < N" "i < length ?sorted"
    using assms(2) ne by (simp_all add: topSessions_def Let_def by_attendance_def)
  have "indexOf (?sorted ! i) ?sorted = int i"
    using indexOf_nth [of ?sorted i] i assms(1) by (simp add: by_attendance_distinct)
  then show ?thesis
    using ne i by (simp add: topSessions_def Let_def by_attendance_def)
qed

lemma digit_in: "n < 10 \<Longrightarrow> ''0123456789'' ! n \<in> digits"
  unfolding digits_def by (rule nth_mem) simp

lemma digit_inj:
  assumes "n < 10" and "m < 10" and "''0123456789'' ! n = ''0123456789'' ! m"
  shows "n = m"
proof -
  have "distinct ''0123456789''" by simp
  then show ?thesis
    using assms nth_eq_iff_index_eq [of "''0123456789''" n m] by simp
qed

lemma string_of_nat_small: "n < 10 \<Longrightarrow> string_of_nat n = [''0123456789'' ! n]"
  by (subst string_of_nat.simps) simp

lemma string_of_nat_large:
  "\<not> n < 10 \<Longrightarrow> string_of_nat n = string_of_nat (n div 10) @ [''0123456789'' ! (n mod 10)]"
  by (subst string_of_nat.simps) simp

lemma string_of_nat_digits: "set (string_of_nat n) \<subseteq> digits"
proof (induction n rule: less_induct)
  case (less n)
  show ?case
  proof (cases "n < 10")
    case True
    then show ?thesis by (simp add: string_of_nat_small digit_in)
  next
    case False
    then have "n div 10 < n" by simp
    then have "set (string_of_nat (n div 10)) \<subseteq> digits" by (rule less.IH)
    then show ?thesis using False by (simp add: string_of_nat_large digit_in)
  qed
qed

lemma string_of_nat_nonempty: "string_of_nat n \<noteq> []"
  by (cases "n < 10") (simp_all add: string_of_nat_small string_of_nat_large)

lemma string_of_nat_inj: "string_of_nat n = string_of_nat m \<Longrightarrow> n = m"
proof (induction n arbitrary: m rule: less_induct)
  case (less n)
  show ?case
  proof (cases "n < 10")
    case n: True
    show ?thesis
    proof (cases "m < 10")
      case True
      then show ?thesis using n less.prems by (simp add: string_of_nat_small digit_inj)
    next
      case False
      then show ?thesis
        using n less.prems string_of_nat_nonempty [of "m div 10"]
        by (simp add: string_of_nat_small string_of_nat_large)
    qed
  next
    case n: False
    show ?thesis
    proof (cases "m < 10")
      case True
      then show ?thesis
        using n less.prems string_of_nat_nonempty [of "n div 10"]
        by (simp add: string_of_nat_small string_of_nat_large)
    next
      case False
      then have e: "string_of_nat (n div 10) = string_of_nat (m div 10)"
        "''0123456789'' ! (n mod 10) = ''0123456789'' ! (m mod 10)"
        using n less.prems by (simp_all add: string_of_nat_large)
      have "n div 10 < n" using n by simp
      then have "n div 10 = m div 10" using e(1) by (rule less.IH)
      moreover have "n mod 10 = m mod 10"
        using e(2) by (intro digit_inj) simp_all
      ultimately show ?thesis by (metis div_mult_mod_eq)
    qed
  qed
qed

lemma split_at_first:
  assumes "x \<notin> set a" and "x \<notin> set a'" and "a @ x # r = a' @ x # r'"
  shows "a = a' \<and> r = r'"
proof -
  have "takeWhile (\<lambda>c. c \<noteq> x) (a @ x # r) = a"
    using assms(1) by (auto simp add: takeWhile_tail takeWhile_eq_all_conv)
  moreover have "takeWhile (\<lambda>c. c \<noteq> x) (a' @ x # r') = a'"
    using assms(2) by (auto simp add: takeWhile_tail takeWhile_eq_all_conv)
  ultimately have "a = a'" using assms(3) by simp
  then show ?thesis using assms(3) by simp
qed

lemma split_at_last:
  assumes "x \<notin> set d" and "x \<notin> set d'" and "m @ x # d = m' @ x # d'"
  shows "m = m' \<and> d = d'"
proof -
  have "rev (m @ x # d) = rev (m' @ x # d')" using assms(3) by simp
  then have "rev d @ x # rev m = rev d' @ x # rev m'" by simp
  then have "rev d = rev d' \<and> rev m = rev m'"
    using assms(1,2) by (intro split_at_first) simp_all
  then show ?thesis by simp
qed

lemma not_digit: "CHR ''_'' \<notin> digits" "CHR '','' \<notin> digits" "CHR '']'' \<notin> digits"
  by (simp_all add: digits_def)

lemma not_in_number: "CHR ''_'' \<notin> set (string_of_nat n)" "CHR '','' \<notin> set (string_of_nat n)"
  "CHR '']'' \<notin> set (string_of_nat n)"
  using string_of_nat_digits [of n] not_digit by blast+

lemma topSessionsKey_inj:
  "topSessionsKey m l = topSessionsKey m' l' \<longleftrightarrow> m = m' \<and> l = l'"
proof
  assume "topSessionsKey m l = topSessionsKey m' l'"
  then have "m @ CHR ''_'' # string_of_nat l = m' @ CHR ''_'' # string_of_nat l'"
    by (simp add: topSessionsKey_def)
  then have "m = m' \<and> string_of_nat l = string_of_nat l'"
    by (rule split_at_last [OF not_in_number(1) not_in_number(1)])
  then show "m = m' \<and> l = l'" by (simp add: string_of_nat_inj)
qed simp

lemma getCacheKey_inj:
  "getCacheKey method [a, b, c] = getCacheKey method [a', b', c']
     \<longleftrightarrow> a = a' \<and> b = b' \<and> c = c'"
proof
  assume "getCacheKey method [a, b, c] = getCacheKey method [a', b', c']"
  then have 1: "string_of_nat a @ CHR '','' # (string_of_nat b @ CHR '','' # (string_of_nat c @ '']''))
      = string_of_nat a' @ CHR '','' # (string_of_nat b' @ CHR '','' # (string_of_nat c' @ '']''))"
    by (simp add: getCacheKey_def)
  have 2: "string_of_nat a = string_of_nat a'
      \<and> string_of_nat b @ CHR '','' # (string_of_nat c @ '']'')
          = string_of_nat b' @ CHR '','' # (string_of_nat c' @ '']'')"
    using not_in_number(2) not_in_number(2) 1 by (rule split_at_first)
  then have "string_of_nat b @ CHR '','' # (string_of_nat c @ '']'')
          = string_of_nat b' @ CHR '','' # (string_of_nat c' @ '']'')" by simp
  with not_in_number(2) not_in_number(2)
  have 3: "string_of_nat b = string_of_nat b'
      \<and> string_of_nat c @ '']'' = string_of_nat c' @ '']''"
    by (rule split_at_first)
  from 2 3 show "a = a' \<and> b = b' \<and> c = c'"
    by (simp add: string_of_nat_inj)
qed simp

lemma getOverallMetrics_miss:
  "\<not> fresh 10000 now (getCacheKey ''overallMetrics'' [length sess, length as, length fb]) c \<Longrightarrow>
   getOverallMetrics sess as fb now c
     = (aggregateMetrics sess as fb,
        c(getCacheKey ''overallMetrics'' [length sess, length as, length fb]
            \<mapsto> (aggregateMetrics sess as fb, now)))"
  by (auto simp: getOverallMetrics_def getFromCache_def setCache_def fresh_def Let_def
      split: option.splits)

lemma getOverallMetrics_hit:
  "c (getCacheKey ''overallMetrics'' [length sess, length as, length fb]) = Some (v, stored)
   \<Longrightarrow> now - stored < 10000 \<Longrightarrow> getOverallMetrics sess as fb now c = (v, c)"
  by (simp add: getOverallMetrics_def getFromCache_def Let_def)

lemma getTopSessions_miss:
  "\<not> fresh 5000 now (topSessionsKey m l) c \<Longrightarrow>
   getTopSessions h arr m l now c
     = (TopSessions (topSessions m l h arr),
        c(topSessionsKey m l \<mapsto> (TopSessions (topSessions m l h arr), now)))"
  by (simp add: getTopSessions_def getCachedOrCompute_miss)

lemma getTopSessions_hit:
  "c (topSessionsKey m l) = Some (v, stored) \<Longrightarrow> now - stored < 5000
   \<Longrightarrow> getTopSessions h arr m l now c = (v, c)"
  by (simp add: getTopSessions_def getCachedOrCompute_hit)

lemma getCachedOrCompute_other:
  "key' \<noteq> key \<Longrightarrow> snd (getCachedOrCompute ttl key f d now c) key' = c key'"
  by (auto simp: getCachedOrCompute_def split: option.splits)

lemma js_less_30_50: "js_less x 30 \<Longrightarrow> js_less x 50"
  by (cases x) simp_all

lemma problemsOf_empty: "problemsOf s = [] \<longleftrightarrow> \<not> flagged s"
  using js_less_30_50 [of "attendanceRate s"]
  by (auto simp: problemsOf_def flagged_def split: option.splits)

lemma problemsOf_severe: "list_all severe (problemsOf s)"
  by (simp add: problemsOf_def severe_def split: option.splits)

lemma issueOf_eq:
  "issueOf s =
     (if flagged s
      then [\<lparr> issue_session = s, problems = problemsOf s,
               overallSeverity = (if list_ex (\<lambda>p. severity p = high) (problemsOf s) then high else medium),
               recommendedActions = getRecommendedActions (problemsOf s) \<rparr>]
      else [])"
  using problemsOf_empty [of s] by (auto simp: issueOf_def Let_def)

lemma issues_unsorted:
  "map issue_session (concat (map issueOf sess)) = filter flagged sess
   \<and> list_all well_formed (concat (map issueOf sess))"
  by (induction sess) (simp_all add: issueOf_eq well_formed_def problemsOf_severe)

lemma issues_sorted:
  "mset (map issue_session (sessionsNeedingAttention sess)) = mset (filter flagged sess)
   \<and> list_all well_formed (sessionsNeedingAttention sess)
   \<and> sorted (map (\<lambda>i. severityOrder (overallSeverity i)) (sessionsNeedingAttention sess))"
proof -
  let ?u = "concat (map issueOf sess)"
  have "mset (sessionsNeedingAttention sess) = mset ?u"
    by (simp add: sessionsNeedingAttention_def)
  then have m: "mset (map issue_session (sessionsNeedingAttention sess)) = mset (map issue_session ?u)"
    by (metis mset_map)
  have "set (sessionsNeedingAttention sess) = set ?u"
    by (simp add: sessionsNeedingAttention_def)
  then have "list_all well_formed (sessionsNeedingAttention sess)"
    using issues_unsorted [of sess] by (simp add: list_all_iff)
  moreover have "sorted (map (\<lambda>i. severityOrder (overallSeverity i)) (sessionsNeedingAttention sess))"
    by (simp add: sessionsNeedingAttention_def)
  ultimately show ?thesis
    using m issues_unsorted [of sess] by simp
qed

lemma troubled_issue:
  "sessionsNeedingAttention [troubled s]
     = [\<lparr> issue_session = troubled s,
          problems = [\<lparr> ptype = low_attendance, severity = high, message = ''Very low attendance'' \<rparr>,
                      \<lparr> ptype = low_engagement, severity = high, message = ''Poor engagement level'' \<rparr>,
                      \<lparr> ptype = low_rating, severity = high, message = ''Low audience rating'' \<rparr>],
          overallSeverity = high,
          recommendedActions =
            [''Send reminder notifications to registered attendees'',
             ''Consider room change or schedule adjustment'',
             ''Encourage speaker to increase interactivity'',
             ''Review session format and content'',
             ''Collect detailed feedback from attendees'',
             ''Schedule follow-up with speaker''] \<rparr>]"
  by (simp add: sessionsNeedingAttention_def issueOf_def problemsOf_def troubled_def
      getRecommendedActions_def Let_def)

lemma empty_not_fresh: "\<not> fresh ttl now key Map.empty"
  by (simp add: fresh_def)

lemma tied_top:
  "map (\<lambda>r. (sid (entry r), rank r, percentile r))
     (topSessions ''attendance'' 3 tied_store [0, 1, 2, 3])
     = [(4, 1, 100), (2, 2, 75), (1, 3, 50)]"
  by (simp add: topSessions_def tied_store_def store_of_def tied_sessions_def example_session_def
      sort_desc_def metric_key_def Let_def round_half_up_def)

lemma percentile_bounds:
  assumes "0 \<le> i" and "i < int n"
  shows "0 \<le> round_half_up ((of_nat n - of_int i) / of_nat n * 100)
       \<and> round_half_up ((of_nat n - of_int i) / of_nat n * 100) \<le> 100"
proof -
  let ?x = "(of_nat n - of_int i) / of_nat n * (100::real)"
  have n: "0 < (of_nat n :: real)" using assms by simp
  have "0 \<le> (of_nat n - of_int i :: real)" using assms by simp
  then have lo: "0 \<le> ?x" using n by simp
  have "(of_nat n - of_int i :: real) \<le> of_nat n" using assms by simp
  then have "(of_nat n - of_int i) / of_nat n \<le> (1::real)" using n by simp
  then have "(of_nat n - of_int i) / of_nat n * 100 \<le> 1 * (100::real)"
    by (intro mult_right_mono) simp_all
  then have hi: "?x \<le> 100" by (simp del: of_nat_diff)
  from lo hi show ?thesis
    unfolding round_half_up_def by (simp add: le_floor_iff floor_le_iff)
qed

lemma topSessions_percentile:
  assumes "distinct arr" and "i < length (topSessions ''attendance'' N h arr)"
  shows "0 \<le> percentile (topSessions ''attendance'' N h arr ! i)
       \<and> percentile (topSessions ''attendance'' N h arr ! i) \<le> 100"
proof -
  have "length (map entry (topSessions ''attendance'' N h arr)) \<le> length arr"
    unfolding topSessions_entries by (simp add: by_attendance_length)
  then have "i < length arr" using assms(2) by simp
  then show ?thesis
    using topSessions_nth [OF assms] percentile_bounds [of "int i" "length arr"] by simp
qed

text \<open>
  C8, as stated, fails: nothing makes the result free of duplicate ids when the array is
  not. For an array of two different session objects that both have the id 1 (and equal
  attendance), a call with an empty cache returns two entries with the id 1, of ranks 1
  and 2; for an array that holds one session object twice it returns two entries with
  the id 1, both of rank 1.
\<close>

theorem duplicate_ids_returned:
  "fst (getTopSessions twin_store [0, 1] ''attendance'' 5 0 Map.empty)
     = TopSessions (topSessions ''attendance'' 5 twin_store [0, 1])
   \<and> map (\<lambda>r. (sid (entry r), rank r)) (topSessions ''attendance'' 5 twin_store [0, 1])
       = [(1, 1), (1, 2)]
   \<and> \<not> distinct (map (\<lambda>r. sid (entry r)) (topSessions ''attendance'' 5 twin_store [0, 1]))
   \<and> map (\<lambda>r. (sid (entry r), rank r)) (topSessions ''attendance'' 5 twin_store [0, 0])
       = [(1, 1), (1, 1)]"
proof -
  have 1: "fst (getTopSessions twin_store [0, 1] ''attendance'' 5 0 Map.empty)
     = TopSessions (topSessions ''attendance'' 5 twin_store [0, 1])"
    by (simp add: getTopSessions_miss empty_not_fresh)
  have 2: "map (\<lambda>r. (sid (entry r), rank r)) (topSessions ''attendance'' 5 twin_store [0, 1])
       = [(1, 1), (1, 2)]"
    by (simp add: topSessions_def twin_store_def store_of_def example_session_def
        sort_desc_def metric_key_def Let_def)
  have "map fst (map (\<lambda>r. (sid (entry r), rank r)) (topSessions ''attendance'' 5 twin_store [0, 1]))
       = [1, 1]"
    unfolding 2 by simp
  then have "map (\<lambda>r. sid (entry r)) (topSessions ''attendance'' 5 twin_store [0, 1]) = [1, 1]"
    by (simp add: comp_def)
  then have 3: "\<not> distinct (map (\<lambda>r. sid (entry r)) (topSessions ''attendance'' 5 twin_store [0, 1]))"
    by simp
  have 4: "map (\<lambda>r. (sid (entry r), rank r)) (topSessions ''attendance'' 5 twin_store [0, 0])
       = [(1, 1), (1, 1)]"
    by (simp add: topSessions_def twin_store_def store_of_def example_session_def
        sort_desc_def metric_key_def Let_def)
  from 1 2 3 4 show ?thesis by blast
qed

text \<open>
  C8, amended. When the key of the call has no fresh entry in the cache (it is empty or
  expired), and the sessions of the array have pairwise different ids,
  \<open>getTopSessions(sessions, 'attendance', N)\<close> returns \<open>min(N, sessions.length)\<close>
  entries: copies of the first sessions of \<open>by_attendance\<close>, which is a rearrangement
  of the array in descending order of \<open>currentAttendance\<close> that keeps sessions of
  equal attendance in their original order. The ids of the entries are different, and the
  entry at position \<open>i\<close> (from 0) has rank \<open>i + 1\<close> and a percentile between 0 and
  100.
\<close>

theorem top_sessions_by_attendance:
  assumes "\<not> fresh 5000 now (topSessionsKey ''attendance'' N) c"
    and "distinct (map (\<lambda>r. sid (h r)) arr)"
  shows "fst (getTopSessions h arr ''attendance'' N now c)
           = TopSessions (topSessions ''attendance'' N h arr)
   \<and> length (topSessions ''attendance'' N h arr) = min N (length arr)
   \<and> map entry (topSessions ''attendance'' N h arr) = map h (take N (by_attendance h arr))
   \<and> mset (by_attendance h arr) = mset arr
   \<and> sorted_wrt (\<lambda>a b. currentAttendance (h b) \<le> currentAttendance (h a)) (by_attendance h arr)
   \<and> (\<forall>k. filter (\<lambda>r. currentAttendance (h r) = k) (by_attendance h arr)
             = filter (\<lambda>r. currentAttendance (h r) = k) arr)
   \<and> sorted_wrt (\<lambda>a b. currentAttendance (entry b) \<le> currentAttendance (entry a))
        (topSessions ''attendance'' N h arr)
   \<and> distinct (map (\<lambda>r. sid (entry r)) (topSessions ''attendance'' N h arr))
   \<and> map rank (topSessions ''attendance'' N h arr)
        = map (\<lambda>i. int i + 1) [0..<min N (length arr)]
   \<and> list_all (\<lambda>r. 0 \<le> percentile r \<and> percentile r \<le> 100)
        (topSessions ''attendance'' N h arr)"
proof -
  let ?r = "topSessions ''attendance'' N h arr"
  have d: "distinct arr" using assms(2) by (simp add: distinct_map)
  have 1: "fst (getTopSessions h arr ''attendance'' N now c) = TopSessions ?r"
    using assms(1) by (simp add: getTopSessions_def getCachedOrCompute_miss)
  have "length (map entry ?r) = min N (length arr)"
    unfolding topSessions_entries by (simp add: by_attendance_length min.commute)
  then have 2: "length ?r = min N (length arr)" by simp
  have 3: "map entry ?r = map h (take N (by_attendance h arr))" by (rule topSessions_entries)
  have "sorted_wrt (\<lambda>a b. currentAttendance (h b) \<le> currentAttendance (h a))
          (take N (by_attendance h arr))"
    using by_attendance_sorted [of h arr] by (rule sorted_wrt_take)
  then have "sorted_wrt (\<lambda>a b. currentAttendance b \<le> currentAttendance a) (map entry ?r)"
    unfolding 3 by (simp add: sorted_wrt_map)
  then have 4: "sorted_wrt (\<lambda>a b. currentAttendance (entry b) \<le> currentAttendance (entry a)) ?r"
    by (simp add: sorted_wrt_map)
  have "distinct (map (\<lambda>r. sid (h r)) (by_attendance h arr))"
  proof -
    have "mset (map (\<lambda>r. sid (h r)) (by_attendance h arr)) = mset (map (\<lambda>r. sid (h r)) arr)"
      by (simp add: by_attendance_mset)
    then show ?thesis
      using assms(2) mset_eq_imp_distinct_iff by blast
  qed
  then have "distinct (map (\<lambda>r. sid (h r)) (take N (by_attendance h arr)))"
    by (simp add: take_map [symmetric] distinct_take)
  then have "distinct (map sid (map entry ?r))"
    unfolding 3 by (simp add: comp_def)
  then have 5: "distinct (map (\<lambda>r. sid (entry r)) ?r)" by (simp add: comp_def)
  have 6: "map rank ?r = map (\<lambda>i. int i + 1) [0..<min N (length arr)]"
    by (rule nth_equalityI) (simp_all add: 2 topSessions_nth [OF d])
  have 7: "list_all (\<lambda>r. 0 \<le> percentile r \<and> percentile r \<le> 100) ?r"
    using topSessions_percentile [OF d] by (simp add: list_all_length)
  from 1 2 3 4 5 6 7 by_attendance_mset [of h arr] by_attendance_sorted [of h arr]
    by_attendance_stable [of h _ arr]
  show ?thesis by blast
qed

theorem top_sessions_by_attendance_witness:
  "\<not> fresh 5000 0 (topSessionsKey ''attendance'' 3) Map.empty
   \<and> distinct (map (\<lambda>r. sid (tied_store r)) [0, 1, 2, 3])
   \<and> fst (getTopSessions tied_store [0, 1, 2, 3] ''attendance'' 3 0 Map.empty)
       = TopSessions (topSessions ''attendance'' 3 tied_store [0, 1, 2, 3])
   \<and> length (topSessions ''attendance'' 3 tied_store [0, 1, 2, 3]) = 3
   \<and> map (\<lambda>r. (sid (entry r), rank r, percentile r))
        (topSessions ''attendance'' 3 tied_store [0, 1, 2, 3])
       = [(4, 1, 100), (2, 2, 75), (1, 3, 50)]
   \<and> distinct (map (\<lambda>r. sid (entry r)) (topSessions ''attendance'' 3 tied_store [0, 1, 2, 3]))"
proof -
  have d: "distinct (map (\<lambda>r. sid (tied_store r)) [0, 1, 2, 3])"
    by (simp add: tied_store_def store_of_def tied_sessions_def example_session_def)
  show ?thesis
    using top_sessions_by_attendance [where now = 0 and N = 3 and c = Map.empty
        and h = tied_store and arr = "[0, 1, 2, 3]"] d tied_top
    by (simp add: empty_not_fresh)
qed

text \<open>
  C3, as stated, fails: the keys do not contain the data arguments. A call of
  \<open>getTopSessions\<close> on one sessions array, one second after a call with the same
  metric and limit on another array, returns the ranking of the other array; and
  \<open>getOverallMetrics\<close> returns the metrics of another sessions array of the same
  length.
\<close>

theorem cache_serves_other_arguments:
  "fst (getTopSessions pair_store [1] ''attendance'' 5 1000
          (snd (getTopSessions pair_store [0] ''attendance'' 5 0 Map.empty)))
     = TopSessions (topSessions ''attendance'' 5 pair_store [0])
   \<and> topSessions ''attendance'' 5 pair_store [0] \<noteq> topSessions ''attendance'' 5 pair_store [1]
   \<and> map entry (topSessions ''attendance'' 5 pair_store [0]) = [example_session 1 Active 100 60]
   \<and> map entry (topSessions ''attendance'' 5 pair_store [1]) = [example_session 2 Active 100 80]
   \<and> fst (getOverallMetrics [example_session 2 Active 100 80] [] [] 1000
            (snd (getOverallMetrics [example_session 1 Active 100 60] [] [] 0 Map.empty)))
       = aggregateMetrics [example_session 1 Active 100 60] [] []
   \<and> aggregateMetrics [example_session 1 Active 100 60] [] []
       \<noteq> aggregateMetrics [example_session 2 Active 100 80] [] []"
proof -
  have 1: "fst (getTopSessions pair_store [1] ''attendance'' 5 1000
          (snd (getTopSessions pair_store [0] ''attendance'' 5 0 Map.empty)))
     = TopSessions (topSessions ''attendance'' 5 pair_store [0])"
    by (simp add: getTopSessions_miss empty_not_fresh getTopSessions_hit)
  have a: "map entry (topSessions ''attendance'' 5 pair_store [0]) = [example_session 1 Active 100 60]"
    by (simp add: topSessions_def sort_desc_def pair_store_def store_of_def Let_def)
  have b: "map entry (topSessions ''attendance'' 5 pair_store [1]) = [example_session 2 Active 100 80]"
    by (simp add: topSessions_def sort_desc_def pair_store_def store_of_def Let_def)
  have 2: "topSessions ''attendance'' 5 pair_store [0] \<noteq> topSessions ''attendance'' 5 pair_store [1]"
  proof
    assume "topSessions ''attendance'' 5 pair_store [0] = topSessions ''attendance'' 5 pair_store [1]"
    then have "[example_session 1 Active 100 60] = [example_session 2 Active 100 80]"
      using a b by simp
    then show False by (simp add: example_session_def)
  qed
  have 3: "fst (getOverallMetrics [example_session 2 Active 100 80] [] [] 1000
            (snd (getOverallMetrics [example_session 1 Active 100 60] [] [] 0 Map.empty)))
       = aggregateMetrics [example_session 1 Active 100 60] [] []"
    using getOverallMetrics_hit [of "snd (getOverallMetrics [example_session 1 Active 100 60] [] [] 0 Map.empty)"
        "[example_session 2 Active 100 80]" "[]" "[]"
        "aggregateMetrics [example_session 1 Active 100 60] [] []" 0 1000]
    by (simp add: getOverallMetrics_miss empty_not_fresh)
  have 4: "aggregateMetrics [example_session 1 Active 100 60] [] []
       \<noteq> aggregateMetrics [example_session 2 Active 100 80] [] []"
  proof
    assume "aggregateMetrics [example_session 1 Active 100 60] [] []
          = aggregateMetrics [example_session 2 Active 100 80] [] []"
    then have "totalAttendance (aggregateMetrics [example_session 1 Active 100 60] [] [])
          = totalAttendance (aggregateMetrics [example_session 2 Active 100 80] [] [])"
      by simp
    then show False
      by (simp add: aggregateMetrics_def sum_attendance_def example_session_def Let_def)
  qed
  from 1 2 a b 3 4 show ?thesis by blast
qed

text \<open>
  C3, amended. A computation is cached under the method name and part of its arguments:
  for \<open>getTopSessions\<close> the metric and the limit, for \<open>getOverallMetrics\<close> the
  lengths of its three arrays. After a call that computed (its key had no fresh entry), a
  call with the same key within the time-to-live (5000 ms in the session analytics,
  10000 ms in the aggregate analytics) returns the value of the first call and leaves the
  cache as it is, whatever data it is given. In general a fresh entry is returned as it
  is, and a call whose key has no fresh entry returns the value computed from its own
  arguments. Different metrics or limits, and different lengths, give different keys.
\<close>

theorem cache_contract:
  "(\<not> fresh 5000 t1 (topSessionsKey m l) c \<and> t2 - t1 < 5000 \<longrightarrow>
      getTopSessions h' arr' m l t2 (snd (getTopSessions h arr m l t1 c))
        = (TopSessions (topSessions m l h arr), snd (getTopSessions h arr m l t1 c)))
   \<and> (\<not> fresh 10000 t1 (getCacheKey ''overallMetrics'' [length sess, length as, length fb]) c'
       \<and> t2 - t1 < 10000
       \<and> length sess' = length sess \<and> length as' = length as \<and> length fb' = length fb \<longrightarrow>
      getOverallMetrics sess' as' fb' t2 (snd (getOverallMetrics sess as fb t1 c'))
        = (aggregateMetrics sess as fb, snd (getOverallMetrics sess as fb t1 c')))
   \<and> (c (topSessionsKey m l) = Some (v, stored) \<and> t1 - stored < 5000 \<longrightarrow>
      getTopSessions h arr m l t1 c = (v, c))
   \<and> (c' (getCacheKey ''overallMetrics'' [length sess, length as, length fb]) = Some (w, stored)
       \<and> t1 - stored < 10000 \<longrightarrow>
      getOverallMetrics sess as fb t1 c' = (w, c'))
   \<and> (\<not> fresh 5000 t1 (topSessionsKey m l) c \<longrightarrow>
      fst (getTopSessions h arr m l t1 c) = TopSessions (topSessions m l h arr))
   \<and> (\<not> fresh 10000 t1 (getCacheKey ''overallMetrics'' [length sess, length as, length fb]) c' \<longrightarrow>
      fst (getOverallMetrics sess as fb t1 c') = aggregateMetrics sess as fb)
   \<and> (topSessionsKey m l = topSessionsKey m' l' \<longleftrightarrow> m = m' \<and> l = l')
   \<and> (getCacheKey ''overallMetrics'' [length sess, length as, length fb]
         = getCacheKey ''overallMetrics'' [length sess', length as', length fb']
       \<longleftrightarrow> length sess = length sess' \<and> length as = length as' \<and> length fb = length fb')"
proof -
  have a: "getTopSessions h' arr' m l t2 (snd (getTopSessions h arr m l t1 c))
        = (TopSessions (topSessions m l h arr), snd (getTopSessions h arr m l t1 c))"
    if "\<not> fresh 5000 t1 (topSessionsKey m l) c" and "t2 - t1 < 5000"
    using that by (simp add: getTopSessions_miss getTopSessions_hit)
  have b: "getOverallMetrics sess' as' fb' t2 (snd (getOverallMetrics sess as fb t1 c'))
        = (aggregateMetrics sess as fb, snd (getOverallMetrics sess as fb t1 c'))"
    if "\<not> fresh 10000 t1 (getCacheKey ''overallMetrics'' [length sess, length as, length fb]) c'"
      and "t2 - t1 < 10000"
      and "length sess' = length sess" and "length as' = length as" and "length fb' = length fb"
    using that
      getOverallMetrics_hit [of "snd (getOverallMetrics sess as fb t1 c')" sess' as' fb'
        "aggregateMetrics sess as fb" t1 t2]
    by (simp add: getOverallMetrics_miss)
  from a b show ?thesis
    using getTopSessions_hit [of c m l v stored t1 h arr]
      getOverallMetrics_hit [of c' sess as fb w stored t1]
      getTopSessions_miss [of t1 m l c h arr] getOverallMetrics_miss [of t1 sess as fb c']
      topSessionsKey_inj [of m l m' l']
      getCacheKey_inj [of "''overallMetrics''" "length sess" "length as" "length fb"
        "length sess'" "length as'" "length fb'"]
    by simp
qed

theorem cache_contract_witness:
  "\<not> fresh 5000 0 (topSessionsKey ''attendance'' 5) (Map.empty :: cached cache)
   \<and> \<not> fresh 10000 0 (getCacheKey ''overallMetrics'' [1, 0, 0]) (Map.empty :: aggregate cache)
   \<and> getTopSessions pair_store [1] ''attendance'' 5 1000
         (snd (getTopSessions pair_store [0] ''attendance'' 5 0 Map.empty))
       = (TopSessions (topSessions ''attendance'' 5 pair_store [0]),
          snd (getTopSessions pair_store [0] ''attendance'' 5 0 Map.empty))
   \<and> getOverallMetrics [example_session 2 Active 100 80] [] [] 1000
         (snd (getOverallMetrics [example_session 1 Active 100 60] [] [] 0 Map.empty))
       = (aggregateMetrics [example_session 1 Active 100 60] [] [],
          snd (getOverallMetrics [example_session 1 Active 100 60] [] [] 0 Map.empty))
   \<and> fst (getTopSessions pair_store [0] ''attendance'' 5 0 Map.empty)
       = TopSessions (topSessions ''attendance'' 5 pair_store [0])
   \<and> topSessionsKey ''attendance'' 5 \<noteq> topSessionsKey ''engagement'' 5"
  using cache_contract [where ?t1.0 = 0 and ?t2.0 = 1000 and m = "''attendance''" and l = 5
      and c = Map.empty and c' = Map.empty
      and h = pair_store and h' = pair_store and arr = "[0]" and arr' = "[1]"
      and sess = "[example_session 1 Active 100 60]" and sess' = "[example_session 2 Active 100 80]"
      and as = "[]" and as' = "[]" and fb = "[]" and fb' = "[]"
      and m' = "''engagement''" and l' = 5]
  by (simp add: empty_not_fresh)

text \<open>
  C2, as stated, fails on the rating. The rating is read from \<open>averageRating\<close>, and
  only a non-zero one is tested. A session with attendance rate 20, engagement 35 and
  \<open>rating\<close> 2 (no \<open>averageRating\<close>, as the generator builds sessions) gets the
  attendance and engagement problems and actions only; a session whose rating and
  \<open>averageRating\<close> are 0, with attendance rate and engagement 90, is not flagged.
\<close>

theorem rating_not_read:
  "fst (getSessionsNeedingAttention
          [(example_session 1 Active 100 20)\<lparr>engagement := 35, rating := 2\<rparr>] 0 Map.empty)
     = Issues [\<lparr> issue_session = (example_session 1 Active 100 20)\<lparr>engagement := 35, rating := 2\<rparr>,
          problems = [\<lparr> ptype = low_attendance, severity = high, message = ''Very low attendance'' \<rparr>,
                      \<lparr> ptype = low_engagement, severity = high, message = ''Poor engagement level'' \<rparr>],
          overallSeverity = high,
          recommendedActions =
            [''Send reminder notifications to registered attendees'',
             ''Consider room change or schedule adjustment'',
             ''Encourage speaker to increase interactivity'',
             ''Review session format and content''] \<rparr>]
   \<and> attendanceRate ((example_session 1 Active 100 20)\<lparr>engagement := 35, rating := 2\<rparr>) = Num 20
   \<and> fst (getSessionsNeedingAttention
          [(example_session 2 Active 100 90)\<lparr>engagement := 90, rating := 0, averageRating := Some 0\<rparr>]
          0 Map.empty)
     = Issues []"
  by (simp add: getSessionsNeedingAttention_def getCachedOrCompute_miss empty_not_fresh
      sessionsNeedingAttention_def issueOf_def problemsOf_def example_session_def
      getRecommendedActions_def Let_def js_rate_def num_of_int_def round_half_up_def)

text \<open>
  C2, amended. When the key \<open>sessionsNeedingAttention\<close> has no fresh entry in the
  cache, the result has one well-formed issue for each flagged session and no other
  (every problem is of severity high or medium), with the issues of overall severity high
  before those of severity medium. For a session with attendance rate 20, engagement 35
  and \<open>averageRating\<close> 2 the issue has overall severity high, the three problems, and
  the two recommended actions of each of the three problem types.
\<close>

theorem sessions_needing_attention:
  assumes "\<not> fresh 5000 now ''sessionsNeedingAttention'' c"
  shows "fst (getSessionsNeedingAttention sess now c) = Issues (sessionsNeedingAttention sess)
   \<and> mset (map issue_session (sessionsNeedingAttention sess)) = mset (filter flagged sess)
   \<and> list_all well_formed (sessionsNeedingAttention sess)
   \<and> sorted (map (\<lambda>i. severityOrder (overallSeverity i)) (sessionsNeedingAttention sess))
   \<and> fst (getSessionsNeedingAttention [troubled s] now c)
       = Issues [\<lparr> issue_session = troubled s,
          problems = [\<lparr> ptype = low_attendance, severity = high, message = ''Very low attendance'' \<rparr>,
                      \<lparr> ptype = low_engagement, severity = high, message = ''Poor engagement level'' \<rparr>,
                      \<lparr> ptype = low_rating, severity = high, message = ''Low audience rating'' \<rparr>],
          overallSeverity = high,
          recommendedActions =
            [''Send reminder notifications to registered attendees'',
             ''Consider room change or schedule adjustment'',
             ''Encourage speaker to increase interactivity'',
             ''Review session format and content'',
             ''Collect detailed feedback from attendees'',
             ''Schedule follow-up with speaker''] \<rparr>]"
proof -
  have "fst (getSessionsNeedingAttention x now c) = Issues (sessionsNeedingAttention x)" for x
    using assms by (simp add: getSessionsNeedingAttention_def getCachedOrCompute_miss)
  then show ?thesis
    using issues_sorted [of sess] by (simp add: troubled_issue)
qed

theorem sessions_needing_attention_witness:
  "\<not> fresh 5000 0 ''sessionsNeedingAttention'' (Map.empty :: cached cache)
   \<and> fst (getSessionsNeedingAttention
            [example_session 2 Active 100 90, troubled (example_session 1 Active 100 20)] 0 Map.empty)
       = Issues (sessionsNeedingAttention
            [example_session 2 Active 100 90, troubled (example_session 1 Active 100 20)])
   \<and> map issue_session (sessionsNeedingAttention
            [example_session 2 Active 100 90, troubled (example_session 1 Active 100 20)])
       = [troubled (example_session 1 Active 100 20)]
   \<and> map overallSeverity (sessionsNeedingAttention [troubled (example_session 1 Active 100 20)])
       = [high]"
proof -
  have "\<not> flagged (example_session 2 Active 100 90)"
    by (simp add: flagged_def example_session_def js_rate_def num_of_int_def round_half_up_def)
  moreover have "flagged (troubled (example_session 1 Active 100 20))"
    by (simp add: flagged_def troubled_def)
  ultimately have "mset (map issue_session (sessionsNeedingAttention
            [example_session 2 Active 100 90, troubled (example_session 1 Active 100 20)]))
       = mset [troubled (example_session 1 Active 100 20)]
     \<and> fst (getSessionsNeedingAttention
            [example_session 2 Active 100 90, troubled (example_session 1 Active 100 20)] 0 Map.empty)
       = Issues (sessionsNeedingAttention
            [example_session 2 Active 100 90, troubled (example_session 1 Active 100 20)])"
    using sessions_needing_attention [where now = 0 and c = Map.empty
        and sess = "[example_session 2 Active 100 90, troubled (example_session 1 Active 100 20)]"]
    by (simp add: empty_not_fresh)
  then show ?thesis
    using mset_single_iff [of "map issue_session (sessionsNeedingAttention
            [example_session 2 Active 100 90, troubled (example_session 1 Active 100 20)])"
        "troubled (example_session 1 Active 100 20)"]
    by (simp add: empty_not_fresh troubled_issue)
qed

end
